theory Spec2Isabelle
  imports Main "HOL-Library.Char_ord" "HOL-Library.List_Lexorder"
begin

section \<open>JavaScript values and library functions used by scripts/validate.mjs\<close>

text \<open>
  The values \<open>JSON.parse\<close> can return. An object is the list of its own properties in
  \<open>Object.keys\<close> order (a JavaScript object holds each key once). A number is kept as the
  text JavaScript prints for it: the validator only ever asks a number for its type and,
  in one message, for its text.
\<close>

datatype json =
    JNull
  | JBool bool
  | JNum string
  | JStr string
  | JArr \<open>json list\<close>
  | JObj \<open>(string \<times> json) list\<close>

text \<open>
  What can be thrown past the \<open>try\<close> of the script: the directory listing failing, and
  the \<open>TypeError\<close> of a template literal whose value has no primitive form.
\<close>

datatype exn = TypeError | ReaddirError string

text \<open>One call of \<open>console.log\<close> or of \<open>console.error\<close>.\<close>

datatype event = Log string | Err string

text \<open>How the process ends: \<open>process.exit(n)\<close>, or the promise of \<open>main\<close> rejects.\<close>

datatype outcome = Exit nat | Uncaught exn

text \<open>\<open>typeof\<close>; \<open>None\<close> is \<open>undefined\<close>, the value of a property that is not there.\<close>

fun typeof :: \<open>json option \<Rightarrow> string\<close> where
  \<open>typeof None = ''undefined''\<close>
| \<open>typeof (Some JNull) = ''object''\<close>
| \<open>typeof (Some (JBool b)) = ''boolean''\<close>
| \<open>typeof (Some (JNum n)) = ''number''\<close>
| \<open>typeof (Some (JStr s)) = ''string''\<close>
| \<open>typeof (Some (JArr xs)) = ''object''\<close>
| \<open>typeof (Some (JObj kvs)) = ''object''\<close>

fun isArray :: \<open>json \<Rightarrow> bool\<close> where
  \<open>isArray (JArr xs) = True\<close>
| \<open>isArray v = False\<close>

text \<open>Truthiness, as \<open>!v\<close> and \<open>if (v)\<close> test it.\<close>

fun truthy :: \<open>json option \<Rightarrow> bool\<close> where
  \<open>truthy None = False\<close>
| \<open>truthy (Some JNull) = False\<close>
| \<open>truthy (Some (JBool b)) = b\<close>
| \<open>truthy (Some (JNum n)) = (n \<noteq> ''0'' \<and> n \<noteq> ''NaN'')\<close>
| \<open>truthy (Some (JStr s)) = (s \<noteq> [])\<close>
| \<open>truthy (Some (JArr xs)) = True\<close>
| \<open>truthy (Some (JObj kvs)) = True\<close>

text \<open>
  Reading a property, \<open>v.k\<close>. None of the names the script reads is a property of
  \<open>Object.prototype\<close>, so only own properties count.
\<close>

fun property :: \<open>json \<Rightarrow> string \<Rightarrow> json option\<close> where
  \<open>property (JObj kvs) k = map_of kvs k\<close>
| \<open>property v k = None\<close>

text \<open>The text of a string value (used only where \<open>typeof\<close> has said string).\<close>

fun str_of :: \<open>json option \<Rightarrow> string\<close> where
  \<open>str_of (Some (JStr s)) = s\<close>
| \<open>str_of v = []\<close>

text \<open>\<open>xs.join(sep)\<close> on an array of strings.\<close>

fun join :: \<open>string \<Rightarrow> string list \<Rightarrow> string\<close> where
  \<open>join sep [] = []\<close>
| \<open>join sep [x] = x\<close>
| \<open>join sep (x # y # ys) = x @ sep @ join sep (y # ys)\<close>

text \<open>
  The conversion to a string that a template literal applies. A string is itself; an
  array joins the conversions of its elements with a comma, \<open>null\<close> giving the empty
  string; an object gives \<open>[object Object]\<close> through \<open>Object.prototype.toString\<close>, unless it
  has an own property \<open>toString\<close>: that property is JSON data, never a function, and
  the conversion throws a \<open>TypeError\<close> (\<open>None\<close>).
\<close>

fun js_string :: \<open>json \<Rightarrow> string option\<close>
  and js_elems :: \<open>json list \<Rightarrow> string list option\<close> where
  \<open>js_string JNull = Some ''null''\<close>
| \<open>js_string (JBool b) = Some (if b then ''true'' else ''false'')\<close>
| \<open>js_string (JNum n) = Some n\<close>
| \<open>js_string (JStr s) = Some s\<close>
| \<open>js_string (JArr xs) = map_option (join '','') (js_elems xs)\<close>
| \<open>js_string (JObj kvs) =
     (if ''toString'' \<in> fst ` set kvs then None else Some ''[object Object]'')\<close>
| \<open>js_elems [] = Some []\<close>
| \<open>js_elems (x # xs) =
     (case (if x = JNull then Some [] else js_string x) of
        None \<Rightarrow> None
      | Some s \<Rightarrow> map_option ((#) s) (js_elems xs))\<close>

text \<open>A count in a template literal: the decimal digits of a natural number.\<close>

definition digit :: \<open>nat \<Rightarrow> char\<close> where
  \<open>digit d = ''0123456789'' ! d\<close>

fun show_nat :: \<open>nat \<Rightarrow> string\<close> where
  \<open>show_nat n = (if n < 10 then [digit n] else show_nat (n div 10) @ [digit (n mod 10)])\<close>

declare show_nat.simps [simp del]

text \<open>\<open>s.endsWith(suffix)\<close>.\<close>

definition endsWith :: \<open>string \<Rightarrow> string \<Rightarrow> bool\<close> where
  \<open>endsWith s suffix =
     (length suffix \<le> length s \<and> drop (length s - length suffix) s = suffix)\<close>

text \<open>
  \<open>extname\<close> and \<open>basename\<close> of \<open>node:path\<close> (POSIX). The last component of a path is
  what follows its last separator, trailing separators dropped. The extension runs from
  the last dot of that component to its end, and is empty when there is no dot, when the
  only dot is the first character, and for the component \<open>..\<close>. \<open>basename\<close> removes the
  suffix from the last component unless it is the whole of it. For a path without a
  separator, which is all a directory listing holds, this is what Node computes.
\<close>

definition last_part :: \<open>string \<Rightarrow> string\<close> where
  \<open>last_part p =
     rev (takeWhile (\<lambda>c. c \<noteq> CHR ''/'') (dropWhile (\<lambda>c. c = CHR ''/'') (rev p)))\<close>

definition extname :: \<open>string \<Rightarrow> string\<close> where
  \<open>extname p =
     (let part = last_part p;
          ext = rev (takeWhile (\<lambda>c. c \<noteq> CHR ''.'') (rev part))
      in if CHR ''.'' \<notin> set part then []
         else if length part = length ext + 1 then []
         else if part = ''..'' then []
         else CHR ''.'' # ext)\<close>

definition basename :: \<open>string \<Rightarrow> string \<Rightarrow> string\<close> where
  \<open>basename p suffix =
     (let part = last_part p
      in if suffix \<noteq> [] \<and> suffix = p then []
         else if suffix \<noteq> [] \<and> length suffix < length part \<and> endsWith part suffix
         then take (length part - length suffix) part
         else part)\<close>

section \<open>scripts/validate.mjs\<close>

subsection \<open>Constants (lines 18-19)\<close>

definition VALID_CATEGORIES :: \<open>string list\<close> where
  \<open>VALID_CATEGORIES = [''general'', ''pattern'', ''workflow'', ''organism'']\<close>

text \<open>
  \<open>FILENAME_RE.test\<close> for \<open>/^[a-z0-9]+(-[a-z0-9]+)*\.json$/\<close>, as the automaton of the
  expression: the flag says whether the segment being read already has a character.
\<close>

definition lower_alnum :: \<open>char \<Rightarrow> bool\<close> where
  \<open>lower_alnum c = (c \<in> set ''abcdefghijklmnopqrstuvwxyz0123456789'')\<close>

fun re_run :: \<open>bool \<Rightarrow> string \<Rightarrow> bool\<close> where
  \<open>re_run seg [] = False\<close>
| \<open>re_run seg (c # cs) =
     (if lower_alnum c then re_run True cs
      else if seg \<and> c = CHR ''-'' then re_run False cs
      else seg \<and> c # cs = ''.json'')\<close>

definition FILENAME_RE_test :: \<open>string \<Rightarrow> bool\<close> where
  \<open>FILENAME_RE_test filename = re_run False filename\<close>

subsection \<open>printResults (lines 171-182)\<close>

definition printResults :: \<open>string list \<Rightarrow> string list \<Rightarrow> event list\<close> where
  \<open>printResults errors warnings =
     (if length errors = 0 \<and> length warnings = 0 then [Log ''  ok'']
      else map (\<lambda>msg. Log (''  FAIL  '' @ msg)) errors
         @ map (\<lambda>msg. Log (''  WARN  '' @ msg)) warnings)\<close>

subsection \<open>validateFile (lines 73-169)\<close>

text \<open>The local variables \<open>errors\<close>, \<open>warnings\<close> and \<open>id\<close> of \<open>validateFile\<close>.\<close>

record diags =
  errs :: \<open>string list\<close>
  warns :: \<open>string list\<close>
  extractedId :: \<open>string option\<close>

text \<open>
  The two things the script takes from outside. \<open>readFile\<close> of a file of the strategies
  directory gives its content (\<open>Inr\<close>) or throws an error with a message (\<open>Inl\<close>), and
  so does \<open>JSON.parse\<close> of a content.
\<close>

type_synonym files = \<open>string \<Rightarrow> string + string\<close>
type_synonym parser = \<open>string \<Rightarrow> string + json\<close>

text \<open>Lines 81-84.\<close>

definition check_filename :: \<open>string \<Rightarrow> diags \<Rightarrow> diags\<close> where
  \<open>check_filename filename d =
     (if \<not> FILENAME_RE_test filename
      then d\<lparr>errs := errs d @ [''Filename "'' @ filename
             @ ''" must be lowercase, hyphenated (e.g., my-strategy.json)'']\<rparr>
      else d)\<close>

text \<open>Lines 88-90, the body of the \<open>try\<close>: \<open>Inl\<close> is \<open>err.message\<close>.\<close>

definition read_parse :: \<open>parser \<Rightarrow> files \<Rightarrow> string \<Rightarrow> string + json\<close> where
  \<open>read_parse parse fs filename =
     (case fs filename of Inl msg \<Rightarrow> Inl msg | Inr content \<Rightarrow> parse content)\<close>

text \<open>Lines 104-114.\<close>

definition check_id :: \<open>string \<Rightarrow> json \<Rightarrow> diags \<Rightarrow> diags\<close> where
  \<open>check_id filename parsed d =
     (if typeof (property parsed ''id'') \<noteq> ''string'' \<or> \<not> truthy (property parsed ''id'')
      then d\<lparr>errs := errs d @ [''Required field "id" is missing or not a non-empty string'']\<rparr>
      else
        let d1 = d\<lparr>extractedId := Some (str_of (property parsed ''id''))\<rparr>;
            stem = basename filename (extname filename)
        in if str_of (property parsed ''id'') \<noteq> stem
           then d1\<lparr>warns := warns d1 @ [''id "'' @ str_of (property parsed ''id'')
                  @ ''" does not match filename stem "'' @ stem @ ''"'']\<rparr>
           else d1)\<close>

text \<open>Lines 116-118.\<close>

definition check_name :: \<open>json \<Rightarrow> diags \<Rightarrow> diags\<close> where
  \<open>check_name parsed d =
     (if typeof (property parsed ''name'') \<noteq> ''string'' \<or> \<not> truthy (property parsed ''name'')
      then d\<lparr>errs := errs d @ [''Required field "name" is missing or not a non-empty string'']\<rparr>
      else d)\<close>

text \<open>Lines 120-122.\<close>

definition check_supplement :: \<open>json \<Rightarrow> diags \<Rightarrow> diags\<close> where
  \<open>check_supplement parsed d =
     (if typeof (property parsed ''supplement'') \<noteq> ''string''
      then d\<lparr>errs := errs d @ [''Required field "supplement" is missing or not a string'']\<rparr>
      else d)\<close>

text \<open>Lines 125-129. \<open>'k' in parsed\<close> is \<open>property parsed k \<noteq> None\<close>.\<close>

definition check_description :: \<open>json \<Rightarrow> diags \<Rightarrow> diags\<close> where
  \<open>check_description parsed d =
     (if property parsed ''description'' = None
      then d\<lparr>warns := warns d
             @ [''Field "description" is missing (will default to empty string on import)'']\<rparr>
      else if typeof (property parsed ''description'') \<noteq> ''string''
      then d\<lparr>errs := errs d @ [''Field "description" must be a string'']\<rparr>
      else d)\<close>

text \<open>
  Lines 131-137. The message holds the text of the value, and building it can throw.
\<close>

definition check_category :: \<open>json \<Rightarrow> diags \<Rightarrow> exn + diags\<close> where
  \<open>check_category parsed d =
     (case property parsed ''category'' of
        None \<Rightarrow>
          Inr (d\<lparr>warns := warns d
                 @ [''Field "category" is missing (will default to "general" on import)'']\<rparr>)
      | Some v \<Rightarrow>
          if v \<notin> set (map JStr VALID_CATEGORIES)
          then (case js_string v of
                  None \<Rightarrow> Inl TypeError
                | Some str \<Rightarrow>
                    Inr (d\<lparr>errs := errs d @ [''Field "category" is "'' @ str
                           @ ''", must be one of: '' @ join '', '' VALID_CATEGORIES]\<rparr>))
          else Inr d)\<close>

text \<open>
  Lines 144-156, the loop over \<open>parsed.examples\<close>: \<open>i\<close> is the index of the first element
  of the list still to visit.
\<close>

fun examples_loop :: \<open>nat \<Rightarrow> json list \<Rightarrow> string list \<Rightarrow> string list\<close> where
  \<open>examples_loop i [] errors = errors\<close>
| \<open>examples_loop i (ex # rest) errors =
     (if ex = JNull \<or> typeof (Some ex) \<noteq> ''object'' \<or> isArray ex
      then examples_loop (i + 1) rest
             (errors @ [''examples['' @ show_nat i
                @ '']: must be an object with "scenario" and "commands" strings''])
      else
        let errors1 =
              (if typeof (property ex ''scenario'') \<noteq> ''string''
               then errors @ [''examples['' @ show_nat i @ '']: "scenario" must be a string'']
               else errors);
            errors2 =
              (if typeof (property ex ''commands'') \<noteq> ''string''
               then errors1 @ [''examples['' @ show_nat i @ '']: "commands" must be a string'']
               else errors1)
        in examples_loop (i + 1) rest errors2)\<close>

text \<open>Lines 139-157.\<close>

definition check_examples :: \<open>json \<Rightarrow> diags \<Rightarrow> diags\<close> where
  \<open>check_examples parsed d =
     (case property parsed ''examples'' of
        None \<Rightarrow>
          d\<lparr>warns := warns d
             @ [''Field "examples" is missing (will default to empty array on import)'']\<rparr>
      | Some v \<Rightarrow>
          (case v of
             JArr xs \<Rightarrow> d\<lparr>errs := examples_loop 0 xs (errs d)\<rparr>
           | _ \<Rightarrow> d\<lparr>errs := errs d @ [''Field "examples" must be an array'']\<rparr>))\<close>

text \<open>Lines 159-165.\<close>

definition knownFields :: \<open>string list\<close> where
  \<open>knownFields = [''id'', ''name'', ''description'', ''category'', ''supplement'', ''examples'']\<close>

fun keys :: \<open>json \<Rightarrow> string list\<close> where
  \<open>keys (JObj kvs) = map fst kvs\<close>
| \<open>keys v = []\<close>

fun unknown_loop :: \<open>string list \<Rightarrow> string list \<Rightarrow> string list\<close> where
  \<open>unknown_loop [] warnings = warnings\<close>
| \<open>unknown_loop (key # rest) warnings =
     (if key \<notin> set knownFields
      then unknown_loop rest
             (warnings @ [''Unknown field "'' @ key @ ''" (will be ignored on import)''])
      else unknown_loop rest warnings)\<close>

definition check_unknown :: \<open>json \<Rightarrow> diags \<Rightarrow> diags\<close> where
  \<open>check_unknown parsed d = d\<lparr>warns := unknown_loop (keys parsed) (warns d)\<rparr>\<close>

text \<open>Lines 104-137: the checks up to \<open>category\<close>, the only one that can throw.\<close>

definition checks_to_category :: \<open>string \<Rightarrow> json \<Rightarrow> diags \<Rightarrow> exn + diags\<close> where
  \<open>checks_to_category filename parsed d =
     check_category parsed
       (check_description parsed
         (check_supplement parsed (check_name parsed (check_id filename parsed d))))\<close>

text \<open>Lines 104-165, the checks made on a top-level object.\<close>

definition check_fields :: \<open>string \<Rightarrow> json \<Rightarrow> diags \<Rightarrow> exn + diags\<close> where
  \<open>check_fields filename parsed d =
     (case checks_to_category filename parsed d of
        Inl e \<Rightarrow> Inl e
      | Inr d1 \<Rightarrow> Inr (check_unknown parsed (check_examples parsed d1)))\<close>

text \<open>
  The arrays \<open>errors\<close> and \<open>warnings\<close> and the identifier at the \<open>return\<close> that
  \<open>validateFile\<close> takes, or the exception that leaves it. \<open>start\<close> is lines 75-77.
\<close>

definition start :: diags where
  \<open>start = \<lparr>errs = [], warns = [], extractedId = None\<rparr>\<close>

definition validateFile_diags :: \<open>parser \<Rightarrow> files \<Rightarrow> string \<Rightarrow> exn + diags\<close> where
  \<open>validateFile_diags parse fs filename =
     (let d = check_filename filename start
      in case read_parse parse fs filename of
           Inl msg \<Rightarrow>
             Inr (d\<lparr>errs := errs d @ [''Invalid JSON: '' @ msg], extractedId := None\<rparr>)
         | Inr parsed \<Rightarrow>
             if parsed = JNull \<or> typeof (Some parsed) \<noteq> ''object'' \<or> isArray parsed
             then Inr (d\<lparr>errs := errs d @ [''Top-level value must be a JSON object''],
                         extractedId := None\<rparr>)
             else check_fields filename parsed d)\<close>

text \<open>The object \<open>validateFile\<close> returns: two counts and the identifier or \<open>null\<close>.\<close>

record result =
  errors :: nat
  warnings :: nat
  id' :: \<open>string option\<close>

text \<open>
  \<open>validateFile\<close>: what it prints, and what it returns. It prints the header first, and
  the diagnostics through \<open>printResults\<close> just before each \<open>return\<close>.
\<close>

definition validateFile :: \<open>parser \<Rightarrow> files \<Rightarrow> string \<Rightarrow> event list \<times> (exn + result)\<close> where
  \<open>validateFile parse fs filename =
     (case validateFile_diags parse fs filename of
        Inl e \<Rightarrow> ([Log (''\<newline>Validating strategies/'' @ filename)], Inl e)
      | Inr d \<Rightarrow>
          (Log (''\<newline>Validating strategies/'' @ filename) # printResults (errs d) (warns d),
           Inr \<lparr>errors = length (errs d), warnings = length (warns d),
                id' = extractedId d\<rparr>))\<close>

subsection \<open>main (lines 23-71)\<close>

text \<open>The variables \<open>main\<close> accumulates into. \<open>idMap\<close> is a \<open>Map\<close>: keys in insertion order.\<close>

record run =
  totalErrors :: nat
  totalWarnings :: nat
  passedFiles :: nat
  idMap :: \<open>(string \<times> string list) list\<close>

text \<open>Lines 45-46: \<open>if (!idMap.has(id)) idMap.set(id, []); idMap.get(id).push(file)\<close>.\<close>

definition idMap_push :: \<open>string \<Rightarrow> string \<Rightarrow> (string \<times> string list) list
    \<Rightarrow> (string \<times> string list) list\<close> where
  \<open>idMap_push i file m =
     (let m1 = (if i \<notin> fst ` set m then m @ [(i, [])] else m)
      in map (\<lambda>(k, filenames). if k = i then (k, filenames @ [file]) else (k, filenames)) m1)\<close>

text \<open>Lines 37-48.\<close>

fun main_loop :: \<open>parser \<Rightarrow> files \<Rightarrow> string list \<Rightarrow> run \<Rightarrow> event list \<times> (exn + run)\<close> where
  \<open>main_loop parse fs [] st = ([], Inr st)\<close>
| \<open>main_loop parse fs (file # rest) st =
     (case validateFile parse fs file of
        (out, Inl e) \<Rightarrow> (out, Inl e)
      | (out, Inr r) \<Rightarrow>
          let st1 = st\<lparr>totalErrors := totalErrors st + errors r,
                      totalWarnings := totalWarnings st + warnings r\<rparr>;
              st2 = (if errors r = 0 then st1\<lparr>passedFiles := passedFiles st1 + 1\<rparr> else st1);
              st3 = (case id' r of
                       None \<Rightarrow> st2
                     | Some i \<Rightarrow>
                         if i \<noteq> [] then st2\<lparr>idMap := idMap_push i file (idMap st2)\<rparr> else st2)
          in case main_loop parse fs rest st3 of (out', res) \<Rightarrow> (out @ out', res))\<close>

text \<open>Lines 52-58: the lines printed and the final value of \<open>duplicates\<close>.\<close>

fun duplicates_loop :: \<open>(string \<times> string list) list \<Rightarrow> nat \<Rightarrow> event list \<times> nat\<close> where
  \<open>duplicates_loop [] duplicates = ([], duplicates)\<close>
| \<open>duplicates_loop ((i, filenames) # rest) duplicates =
     (if length filenames > 1
      then (case duplicates_loop rest (duplicates + 1) of
              (out, n) \<Rightarrow>
                (Log (''  FAIL  Duplicate id "'' @ i @ ''" in: '' @ join '', '' filenames) # out, n))
      else duplicates_loop rest duplicates)\<close>

text \<open>Lines 51-63, the cross-file section: its lines and the number of duplicates.\<close>

definition cross_file :: \<open>(string \<times> string list) list \<Rightarrow> event list \<times> nat\<close> where
  \<open>cross_file m =
     (case duplicates_loop m 0 of
        (out, duplicates) \<Rightarrow>
          (Log ''\<newline>Cross-file checks:'' # out
             @ (if duplicates = 0
                then [Log (''  ok    All '' @ show_nat (length m) @ '' strategy IDs are unique'')]
                else []),
           duplicates))\<close>

text \<open>Line 25.\<close>

definition discover :: \<open>string list \<Rightarrow> string list\<close> where
  \<open>discover entries = sort (filter (\<lambda>f. endsWith f ''.json'') entries)\<close>

definition run0 :: run where
  \<open>run0 = \<lparr>totalErrors = 0, totalWarnings = 0, passedFiles = 0, idMap = []\<rparr>\<close>

text \<open>
  \<open>main\<close>, given what \<open>readdir\<close> returned (\<open>Inr\<close>) or the message of what it threw
  (\<open>Inl\<close>): everything printed, and how the process ends.
\<close>

definition main :: \<open>parser \<Rightarrow> files \<Rightarrow> string + string list \<Rightarrow> event list \<times> outcome\<close> where
  \<open>main parse fs dir =
     (case dir of
        Inl msg \<Rightarrow> ([], Uncaught (ReaddirError msg))
      | Inr entries \<Rightarrow>
          let files = discover entries
          in if length files = 0
             then ([Err ''No .json files found in strategies/''], Exit 1)
             else
               (case main_loop parse fs files run0 of
                  (out, Inl e) \<Rightarrow> (out, Uncaught e)
                | (out, Inr st) \<Rightarrow>
                    (case cross_file (idMap st) of
                       (cross, duplicates) \<Rightarrow>
                         let total = totalErrors st + duplicates;
                             failedFiles = length files - passedFiles st
                         in (out @ cross
                               @ [Log (''\<newline>Results: '' @ show_nat (passedFiles st) @ '' passed, ''
                                    @ show_nat failedFiles @ '' failed, ''
                                    @ show_nat (totalWarnings st) @ '' warnings'')],
                             Exit (if total > 0 then 1 else 0)))))\<close>

section \<open>What the claims speak of\<close>

text \<open>
  What \<open>validateFile\<close> returns for one file of the directory: whether it returns at
  all, its two counts and its identifier.
\<close>

definition completes :: \<open>parser \<Rightarrow> files \<Rightarrow> string \<Rightarrow> bool\<close> where
  \<open>completes parse fs f = (\<not> isl (snd (validateFile parse fs f)))\<close>

definition file_errors :: \<open>parser \<Rightarrow> files \<Rightarrow> string \<Rightarrow> nat\<close> where
  \<open>file_errors parse fs f =
     (case snd (validateFile parse fs f) of Inl e \<Rightarrow> 0 | Inr r \<Rightarrow> errors r)\<close>

definition file_warnings :: \<open>parser \<Rightarrow> files \<Rightarrow> string \<Rightarrow> nat\<close> where
  \<open>file_warnings parse fs f =
     (case snd (validateFile parse fs f) of Inl e \<Rightarrow> 0 | Inr r \<Rightarrow> warnings r)\<close>

definition file_id :: \<open>parser \<Rightarrow> files \<Rightarrow> string \<Rightarrow> string option\<close> where
  \<open>file_id parse fs f =
     (case snd (validateFile parse fs f) of Inl e \<Rightarrow> None | Inr r \<Rightarrow> id' r)\<close>

text \<open>
  The files that declared an identifier, in the order of the list, and the identifiers
  that more than one file declared.
\<close>

definition declaring :: \<open>parser \<Rightarrow> files \<Rightarrow> string list \<Rightarrow> string \<Rightarrow> string list\<close> where
  \<open>declaring parse fs fl i = filter (\<lambda>f. file_id parse fs f = Some i) fl\<close>

definition duplicated :: \<open>parser \<Rightarrow> files \<Rightarrow> string list \<Rightarrow> string set\<close> where
  \<open>duplicated parse fs fl = {i. 1 < length (declaring parse fs fl i)}\<close>

text \<open>
  The total error count of a run: the errors of every discovered file, and one for
  every duplicated identifier.
\<close>

definition total_errors :: \<open>parser \<Rightarrow> files \<Rightarrow> string list \<Rightarrow> nat\<close> where
  \<open>total_errors parse fs fl =
     sum_list (map (file_errors parse fs) fl) + card (duplicated parse fs fl)\<close>

text \<open>The identifier map after the loop, file by file.\<close>

definition add_file :: \<open>parser \<Rightarrow> files \<Rightarrow> (string \<times> string list) list \<Rightarrow> string
    \<Rightarrow> (string \<times> string list) list\<close> where
  \<open>add_file parse fs m f =
     (case file_id parse fs f of None \<Rightarrow> m | Some i \<Rightarrow> idMap_push i f m)\<close>

text \<open>A value that is a string, as the specification asks of a field.\<close>

fun is_str :: \<open>json option \<Rightarrow> bool\<close> where
  \<open>is_str (Some (JStr s)) = True\<close>
| \<open>is_str v = False\<close>

text \<open>
  What the specification says one element of \<open>examples\<close> at position \<open>i\<close> contributes:
  one error when it is not a keyed record, and otherwise one error for each of
  \<open>scenario\<close> and \<open>commands\<close> that is not a string, each tagged with the position.
\<close>

definition example_errors :: \<open>nat \<Rightarrow> json \<Rightarrow> string list\<close> where
  \<open>example_errors i ex =
     (case ex of
        JObj kvs \<Rightarrow>
          (if is_str (map_of kvs ''scenario'') then []
           else [''examples['' @ show_nat i @ '']: "scenario" must be a string''])
          @ (if is_str (map_of kvs ''commands'') then []
             else [''examples['' @ show_nat i @ '']: "commands" must be a string''])
      | _ \<Rightarrow>
          [''examples['' @ show_nat i
             @ '']: must be an object with "scenario" and "commands" strings''])\<close>

text \<open>An element of \<open>examples\<close> as the data model has it.\<close>

definition example_ok :: \<open>json \<Rightarrow> bool\<close> where
  \<open>example_ok ex =
     (case ex of
        JObj kvs \<Rightarrow> is_str (map_of kvs ''scenario'') \<and> is_str (map_of kvs ''commands'')
      | _ \<Rightarrow> False)\<close>

text \<open>
  The message of the \<open>category\<close> check can be built: the field is absent, or one of the
  four, or a value that a template literal can convert.
\<close>

definition category_prints :: \<open>json \<Rightarrow> bool\<close> where
  \<open>category_prints parsed =
     (case property parsed ''category'' of
        None \<Rightarrow> True
      | Some c \<Rightarrow> c \<in> set (map JStr VALID_CATEGORIES) \<or> js_string c \<noteq> None)\<close>

text \<open>
  Every field check other than that of \<open>id\<close> passes: \<open>name\<close> a non-empty string,
  \<open>supplement\<close> a string, \<open>description\<close> absent or a string, \<open>category\<close> absent or one
  of the four, \<open>examples\<close> absent or a sequence of well-formed elements.
\<close>

definition other_checks_pass :: \<open>json \<Rightarrow> bool\<close> where
  \<open>other_checks_pass parsed =
     (is_str (property parsed ''name'') \<and> str_of (property parsed ''name'') \<noteq> []
      \<and> is_str (property parsed ''supplement'')
      \<and> (property parsed ''description'' = None \<or> is_str (property parsed ''description''))
      \<and> (case property parsed ''category'' of
            None \<Rightarrow> True
          | Some c \<Rightarrow> c \<in> set (map JStr VALID_CATEGORIES))
      \<and> (case property parsed ''examples'' of
            None \<Rightarrow> True
          | Some (JArr xs) \<Rightarrow> list_all example_ok xs
          | Some v \<Rightarrow> False))\<close>

text \<open>
  A fully populated, valid document under a conventional filename: every recognized
  field present with its type, the identifier equal to the stem of the filename, no
  other key.
\<close>

definition conforming :: \<open>string \<Rightarrow> json \<Rightarrow> bool\<close> where
  \<open>conforming filename parsed =
     (FILENAME_RE_test filename
      \<and> (case parsed of JObj kvs \<Rightarrow> True | _ \<Rightarrow> False)
      \<and> is_str (property parsed ''id'') \<and> str_of (property parsed ''id'') \<noteq> []
      \<and> str_of (property parsed ''id'') = basename filename (extname filename)
      \<and> is_str (property parsed ''name'') \<and> str_of (property parsed ''name'') \<noteq> []
      \<and> is_str (property parsed ''supplement'')
      \<and> is_str (property parsed ''description'')
      \<and> (case property parsed ''category'' of
            None \<Rightarrow> False
          | Some c \<Rightarrow> c \<in> set (map JStr VALID_CATEGORIES))
      \<and> (case property parsed ''examples'' of
            Some (JArr xs) \<Rightarrow> list_all example_ok xs
          | _ \<Rightarrow> False)
      \<and> list_all (\<lambda>k. k \<in> set knownFields) (keys parsed))\<close>

definition conforming_file :: \<open>parser \<Rightarrow> files \<Rightarrow> string \<Rightarrow> bool\<close> where
  \<open>conforming_file parse fs f =
     (case read_parse parse fs f of Inl msg \<Rightarrow> False | Inr parsed \<Rightarrow> conforming f parsed)\<close>

subsection \<open>A sample directory\<close>

text \<open>
  Documents as \<open>JSON.parse\<close> returns them, and a directory that holds them: two
  valid ones, one without \<open>id\<close>, one with an empty \<open>id\<close>, one that repeats the identifier
  of the first, two with malformed examples, one whose category has an own \<open>toString\<close>,
  an array, and two files that do not parse. Any other file is missing. The parser
  is given on the contents the directory holds.
\<close>

definition doc_alpha :: json where
  \<open>doc_alpha = JObj [(''id'', JStr ''alpha''), (''name'', JStr ''Alpha''),
     (''description'', JStr ''first''), (''category'', JStr ''general''),
     (''supplement'', JStr ''''),
     (''examples'', JArr [JObj [(''scenario'', JStr ''s''), (''commands'', JStr ''c'')]])]\<close>

definition doc_noid :: json where
  \<open>doc_noid = JObj [(''name'', JStr ''Beta''), (''description'', JStr ''second''),
     (''category'', JStr ''pattern''), (''supplement'', JStr ''text''),
     (''examples'', JArr [])]\<close>

definition doc_empty_id :: json where
  \<open>doc_empty_id = JObj [(''id'', JStr ''''), (''name'', JStr ''Empty''),
     (''description'', JStr ''third''), (''category'', JStr ''workflow''),
     (''supplement'', JStr ''text''), (''examples'', JArr [])]\<close>

definition doc_gamma :: json where
  \<open>doc_gamma = JObj [(''id'', JStr ''alpha''), (''name'', JStr ''Gamma''),
     (''supplement'', JStr ''text'')]\<close>

definition doc_delta :: json where
  \<open>doc_delta = JObj [(''id'', JStr ''delta''), (''name'', JStr ''Delta''),
     (''description'', JStr ''fifth''), (''category'', JStr ''organism''),
     (''supplement'', JStr ''text''),
     (''examples'', JArr [JObj [(''scenario'', JStr ''s''), (''commands'', JStr ''c'')],
                        JObj [(''scenario'', JStr ''s'')], JNull])]\<close>

definition doc_omega :: json where
  \<open>doc_omega = JObj [(''id'', JStr ''omega-2''), (''name'', JStr ''Omega''),
     (''description'', JStr ''''), (''category'', JStr ''workflow''),
     (''supplement'', JStr ''text''), (''examples'', JArr [])]\<close>

definition doc_epsilon :: json where
  \<open>doc_epsilon = JObj [(''id'', JStr ''epsilon''), (''name'', JStr ''Epsilon''),
     (''description'', JStr ''sixth''), (''category'', JStr ''general''),
     (''supplement'', JStr ''text''),
     (''examples'', JArr [JObj [(''scenario'', JStr ''s''), (''commands'', JStr ''c'')],
                        JObj [(''scenario'', JStr ''t'')],
                        JObj [(''scenario'', JStr ''u''), (''commands'', JStr ''d'')]])]\<close>

definition doc_gamma_full :: json where
  \<open>doc_gamma_full = JObj [(''id'', JStr ''alpha''), (''name'', JStr ''Gamma''),
     (''description'', JStr ''fourth''), (''category'', JStr ''pattern''),
     (''supplement'', JStr ''text''), (''examples'', JArr [])]\<close>

definition doc_crash :: json where
  \<open>doc_crash = JObj [(''id'', JStr ''crash''), (''name'', JStr ''Crash''),
     (''category'', JObj [(''toString'', JNull)]), (''supplement'', JStr ''text''),
     (''examples'', JNum ''5'')]\<close>

text \<open>The contents of the files, and what \<open>JSON.parse\<close> makes of them.\<close>

definition text_alpha :: string where
  \<open>text_alpha = ''{"id":"alpha","name":"Alpha","description":"first","category":"general","supplement":"","examples":[{"scenario":"s","commands":"c"}]}''\<close>

definition text_noid :: string where
  \<open>text_noid = ''{"name":"Beta","description":"second","category":"pattern","supplement":"text","examples":[]}''\<close>

definition text_empty_id :: string where
  \<open>text_empty_id = ''{"id":"","name":"Empty","description":"third","category":"workflow","supplement":"text","examples":[]}''\<close>

definition text_gamma :: string where
  \<open>text_gamma = ''{"id":"alpha","name":"Gamma","supplement":"text"}''\<close>

definition text_delta :: string where
  \<open>text_delta = ''{"id":"delta","name":"Delta","description":"fifth","category":"organism","supplement":"text","examples":[{"scenario":"s","commands":"c"},{"scenario":"s"},null]}''\<close>

definition text_omega :: string where
  \<open>text_omega = ''{"id":"omega-2","name":"Omega","description":"","category":"workflow","supplement":"text","examples":[]}''\<close>

definition text_epsilon :: string where
  \<open>text_epsilon = ''{"id":"epsilon","name":"Epsilon","description":"sixth","category":"general","supplement":"text","examples":[{"scenario":"s","commands":"c"},{"scenario":"t"},{"scenario":"u","commands":"d"}]}''\<close>

definition text_gamma_full :: string where
  \<open>text_gamma_full = ''{"id":"alpha","name":"Gamma","description":"fourth","category":"pattern","supplement":"text","examples":[]}''\<close>

definition text_crash :: string where
  \<open>text_crash = ''{"id":"crash","name":"Crash","category":{"toString":null},"supplement":"text","examples":5}''\<close>

definition sample_parse :: parser where
  \<open>sample_parse content =
     (if content = text_alpha then Inr doc_alpha
      else if content = text_omega then Inr doc_omega
      else if content = text_crash then Inr doc_crash
      else if content = text_noid then Inr doc_noid
      else if content = text_empty_id then Inr doc_empty_id
      else if content = text_gamma then Inr doc_gamma
      else if content = text_delta then Inr doc_delta
      else if content = text_epsilon then Inr doc_epsilon
      else if content = text_gamma_full then Inr doc_gamma_full
      else if content = ''[]'' then Inr (JArr [])
      else Inl ''Unexpected end of JSON input'')\<close>

definition sample_fs :: files where
  \<open>sample_fs f =
     (if f = ''alpha.json'' then Inr text_alpha
      else if f = ''omega-2.json'' then Inr text_omega
      else if f = ''beta.json'' then Inr text_noid
      else if f = ''Bad_Name.json'' then Inr text_noid
      else if f = ''empty.json'' then Inr text_empty_id
      else if f = ''gamma.json'' then Inr text_gamma
      else if f = ''delta.json'' then Inr text_delta
      else if f = ''epsilon.json'' then Inr text_epsilon
      else if f = ''list.json'' then Inr ''[]''
      else if f = ''broken.json'' then Inr ''{''
      else if f = ''Broken.json'' then Inr ''{''
      else if f = ''crash.json'' then Inr text_crash
      else Inl ''ENOENT: no such file or directory'')\<close>

text \<open>
  The same directory with a fuller \<open>gamma.json\<close>: the same errors and identifier, fewer
  warnings.
\<close>

definition sample_fs_quiet :: files where
  \<open>sample_fs_quiet f = (if f = ''gamma.json'' then Inr text_gamma_full else sample_fs f)\<close>

section \<open>Lemmas\<close>

subsection \<open>The checks of one file\<close>

lemma typeof_string_iff: \<open>typeof v = ''string'' \<longleftrightarrow> (\<exists>s. v = Some (JStr s))\<close>
  by (cases v rule: typeof.cases) simp_all

lemma typeof_object_iff:
  \<open>\<not> (v = JNull \<or> typeof (Some v) \<noteq> ''object'' \<or> isArray v) \<longleftrightarrow> (\<exists>kvs. v = JObj kvs)\<close>
  by (cases v) simp_all

lemma extractedId_check_name [simp]: \<open>extractedId (check_name p d) = extractedId d\<close>
  by (simp add: check_name_def)

lemma extractedId_check_supplement [simp]: \<open>extractedId (check_supplement p d) = extractedId d\<close>
  by (simp add: check_supplement_def)

lemma extractedId_check_description [simp]: \<open>extractedId (check_description p d) = extractedId d\<close>
  by (simp add: check_description_def)

lemma extractedId_check_examples [simp]: \<open>extractedId (check_examples p d) = extractedId d\<close>
  by (simp add: check_examples_def split: option.splits json.splits)

lemma extractedId_check_unknown [simp]: \<open>extractedId (check_unknown p d) = extractedId d\<close>
  by (simp add: check_unknown_def)

lemma extractedId_check_filename [simp]: \<open>extractedId (check_filename f d) = extractedId d\<close>
  by (simp add: check_filename_def)

lemma extractedId_check_category:
  \<open>check_category p d = Inr d' \<Longrightarrow> extractedId d' = extractedId d\<close>
  by (auto simp: check_category_def split: option.splits if_splits)

lemma extractedId_check_id:
  \<open>extractedId (check_id f p d) =
     (if typeof (property p ''id'') = ''string'' \<and> truthy (property p ''id'')
      then Some (str_of (property p ''id'')) else extractedId d)\<close>
  by (simp add: check_id_def Let_def)

lemma extractedId_check_fields:
  \<open>check_fields f p d = Inr d' \<Longrightarrow>
     extractedId d' =
       (if typeof (property p ''id'') = ''string'' \<and> truthy (property p ''id'')
        then Some (str_of (property p ''id'')) else extractedId d)\<close>
  by (auto simp: check_fields_def checks_to_category_def extractedId_check_id split: sum.splits
           dest!: extractedId_check_category)

lemma validateFile_diags_id_nonempty:
  \<open>validateFile_diags parse fs f = Inr d \<Longrightarrow> extractedId d = Some i \<Longrightarrow> i \<noteq> []\<close>
  by (auto simp: validateFile_diags_def Let_def start_def typeof_string_iff
           split: sum.splits if_splits dest!: extractedId_check_fields)

lemma file_id_nonempty: \<open>file_id parse fs f = Some i \<Longrightarrow> i \<noteq> []\<close>
  by (auto simp: file_id_def validateFile_def split: sum.splits
           dest: validateFile_diags_id_nonempty)

subsection \<open>The loop of main and the identifier map\<close>

lemma main_loop_completes:
  \<open>\<forall>f \<in> set fl. completes parse fs f \<Longrightarrow>
     main_loop parse fs fl st =
       (concat (map (\<lambda>f. fst (validateFile parse fs f)) fl),
        Inr \<lparr>totalErrors = totalErrors st + sum_list (map (file_errors parse fs) fl),
             totalWarnings = totalWarnings st + sum_list (map (file_warnings parse fs) fl),
             passedFiles = passedFiles st + length (filter (\<lambda>f. file_errors parse fs f = 0) fl),
             idMap = foldl (add_file parse fs) (idMap st) fl\<rparr>)\<close>
proof (induction fl arbitrary: st)
  case Nil
  then show ?case by simp
next
  case (Cons f fl)
  from Cons.prems have c: \<open>completes parse fs f\<close> and rest: \<open>\<forall>f \<in> set fl. completes parse fs f\<close>
    by simp_all
  from c obtain out r where v: \<open>validateFile parse fs f = (out, Inr r)\<close>
    by (cases \<open>validateFile parse fs f\<close>; cases \<open>snd (validateFile parse fs f)\<close>)
       (auto simp: completes_def)
  have ne: \<open>id' r = Some i \<Longrightarrow> i \<noteq> []\<close> for i
    using file_id_nonempty [of parse fs f i] v by (simp add: file_id_def)
  show ?case
    using v ne
    by (cases \<open>id' r\<close>)
       (simp_all add: Cons.IH [OF rest] file_errors_def file_warnings_def file_id_def
          add_file_def)
qed

lemma main_loop_throws:
  \<open>main_loop parse fs fl st = (out, Inr st') \<Longrightarrow> \<forall>f \<in> set fl. completes parse fs f\<close>
proof (induction fl arbitrary: st out)
  case Nil
  then show ?case by simp
next
  case (Cons f fl)
  then show ?case
    by (auto simp: completes_def Let_def split: prod.splits sum.splits option.splits if_splits)
qed

lemma map_of_idMap_push:
  \<open>map_of (idMap_push i f m) k =
     (if k = i then Some ((case map_of m i of None \<Rightarrow> [] | Some v \<Rightarrow> v) @ [f]) else map_of m k)\<close>
proof -
  have upd: \<open>map_of (map (\<lambda>(k, v). if k = i then (k, v @ [f]) else (k, v)) m') k =
      (if k = i then map_option (\<lambda>v. v @ [f]) (map_of m' i) else map_of m' k)\<close> for m'
    by (induction m') auto
  show ?thesis
  proof (cases \<open>i \<in> fst ` set m\<close>)
    case True
    then obtain v where \<open>map_of m i = Some v\<close>
      by (metis map_of_eq_None_iff not_Some_eq)
    with True show ?thesis
      by (simp add: idMap_push_def upd)
  next
    case False
    then have \<open>map_of m i = None\<close>
      by (simp add: map_of_eq_None_iff)
    with False show ?thesis
      by (simp add: idMap_push_def upd map_add_def split: option.splits)
  qed
qed

lemma keys_idMap_push:
  \<open>map fst (idMap_push i f m) = (if i \<in> fst ` set m then map fst m else map fst m @ [i])\<close>
  by (auto simp: idMap_push_def Let_def split: prod.splits)

lemma distinct_idMap_push:
  \<open>distinct (map fst m) \<Longrightarrow> distinct (map fst (idMap_push i f m))\<close>
  by (auto simp: keys_idMap_push)

lemma distinct_add_file:
  \<open>distinct (map fst m) \<Longrightarrow> distinct (map fst (add_file parse fs m f))\<close>
  by (simp add: add_file_def distinct_idMap_push split: option.splits)

lemma distinct_build:
  \<open>distinct (map fst m) \<Longrightarrow> distinct (map fst (foldl (add_file parse fs) m fl))\<close>
  by (induction fl arbitrary: m) (simp_all add: distinct_add_file)

lemma map_of_add_file:
  \<open>map_of (add_file parse fs m f) k =
     (if file_id parse fs f = Some k
      then Some ((case map_of m k of None \<Rightarrow> [] | Some v \<Rightarrow> v) @ [f])
      else map_of m k)\<close>
  by (auto simp: add_file_def map_of_idMap_push split: option.splits)

lemma map_of_build:
  \<open>map_of (foldl (add_file parse fs) m fl) k =
     (if declaring parse fs fl k = [] then map_of m k
      else Some ((case map_of m k of None \<Rightarrow> [] | Some v \<Rightarrow> v) @ declaring parse fs fl k))\<close>
proof (induction fl arbitrary: m)
  case Nil
  then show ?case by (simp add: declaring_def)
next
  case (Cons f fl)
  have \<open>declaring parse fs (f # fl) k =
      (if file_id parse fs f = Some k then f # declaring parse fs fl k
       else declaring parse fs fl k)\<close>
    by (simp add: declaring_def)
  then show ?case
    by (simp add: Cons.IH map_of_add_file split: option.splits)
qed

lemma build_entries:
  assumes \<open>(k, v) \<in> set (foldl (add_file parse fs) [] fl)\<close>
  shows \<open>v = declaring parse fs fl k \<and> v \<noteq> []\<close>
proof -
  have \<open>distinct (map fst (foldl (add_file parse fs) [] fl))\<close>
    by (rule distinct_build) simp
  with assms have \<open>map_of (foldl (add_file parse fs) [] fl) k = Some v\<close>
    by simp
  then show ?thesis
    by (auto simp: map_of_build split: if_splits)
qed

lemma build_has_entry:
  assumes \<open>declaring parse fs fl k \<noteq> []\<close>
  shows \<open>(k, declaring parse fs fl k) \<in> set (foldl (add_file parse fs) [] fl)\<close>
proof -
  from assms have \<open>map_of (foldl (add_file parse fs) [] fl) k = Some (declaring parse fs fl k)\<close>
    by (simp add: map_of_build)
  then show ?thesis by (rule map_of_SomeD)
qed

lemma finite_duplicated: \<open>finite (duplicated parse fs fl)\<close>
proof -
  have \<open>duplicated parse fs fl \<subseteq> (\<lambda>f. the (file_id parse fs f)) ` set fl\<close>
  proof
    fix i assume \<open>i \<in> duplicated parse fs fl\<close>
    then have \<open>declaring parse fs fl i \<noteq> []\<close>
      by (auto simp: duplicated_def)
    then obtain f where \<open>f \<in> set fl\<close> \<open>file_id parse fs f = Some i\<close>
      by (auto simp: declaring_def filter_empty_conv)
    then show \<open>i \<in> (\<lambda>f. the (file_id parse fs f)) ` set fl\<close>
      by force
  qed
  then show ?thesis by (rule finite_subset) simp
qed

lemma count_duplicates:
  \<open>length (filter (\<lambda>(i, fns). 1 < length fns) (foldl (add_file parse fs) [] fl))
     = card (duplicated parse fs fl)\<close>
proof -
  let ?M = \<open>foldl (add_file parse fs) [] fl\<close>
  let ?D = \<open>filter (\<lambda>(i, fns). 1 < length fns) ?M\<close>
  have \<open>distinct (map fst ?M)\<close>
    by (rule distinct_build) simp
  then have d: \<open>distinct (map fst ?D)\<close>
    by (rule distinct_map_filter)
  have \<open>set (map fst ?D) = duplicated parse fs fl\<close>
  proof (rule set_eqI)
    fix i
    show \<open>i \<in> set (map fst ?D) \<longleftrightarrow> i \<in> duplicated parse fs fl\<close>
    proof
      assume \<open>i \<in> set (map fst ?D)\<close>
      then obtain v where \<open>(i, v) \<in> set ?M\<close> \<open>1 < length v\<close> by auto
      with build_entries [of i v parse fs fl] show \<open>i \<in> duplicated parse fs fl\<close>
        by (simp add: duplicated_def)
    next
      assume \<open>i \<in> duplicated parse fs fl\<close>
      then have l: \<open>1 < length (declaring parse fs fl i)\<close> by (simp add: duplicated_def)
      then have \<open>declaring parse fs fl i \<noteq> []\<close> by auto
      from build_has_entry [OF this] l show \<open>i \<in> set (map fst ?D)\<close>
        by force
    qed
  qed
  with d have \<open>card (duplicated parse fs fl) = length (map fst ?D)\<close>
    using distinct_card by fastforce
  then show ?thesis by simp
qed

lemma duplicates_loop_eq:
  \<open>duplicates_loop m n =
     (map (\<lambda>(i, fns). Log (''  FAIL  Duplicate id "'' @ i @ ''" in: '' @ join '', '' fns))
        (filter (\<lambda>(i, fns). 1 < length fns) m),
      n + length (filter (\<lambda>(i, fns). 1 < length fns) m))\<close>
  by (induction m n rule: duplicates_loop.induct) simp_all

lemma cross_file_eq:
  \<open>cross_file m =
     (Log ''\<newline>Cross-file checks:''
        # map (\<lambda>(i, fns). Log (''  FAIL  Duplicate id "'' @ i @ ''" in: '' @ join '', '' fns))
            (filter (\<lambda>(i, fns). 1 < length fns) m)
        @ (if filter (\<lambda>(i, fns). 1 < length fns) m = []
           then [Log (''  ok    All '' @ show_nat (length m) @ '' strategy IDs are unique'')]
           else []),
      length (filter (\<lambda>(i, fns). 1 < length fns) m))\<close>
  by (simp add: cross_file_def duplicates_loop_eq)

lemma snd_cross_file:
  \<open>snd (cross_file (foldl (add_file parse fs) [] fl)) = card (duplicated parse fs fl)\<close>
  by (simp only: cross_file_eq snd_conv count_duplicates)

lemma main_after_loop:
  assumes \<open>main_loop parse fs (discover entries) run0 = (out, Inr st)\<close>
    and \<open>discover entries \<noteq> []\<close>
  shows \<open>snd (main parse fs (Inr entries)) =
     Exit (if 0 < totalErrors st + snd (cross_file (idMap st)) then 1 else 0)\<close>
  using assms by (simp add: main_def Let_def split: prod.splits)

lemma main_exit:
  assumes \<open>\<forall>f \<in> set (discover entries). completes parse fs f\<close>
  shows \<open>snd (main parse fs (Inr entries)) =
     Exit (if discover entries = [] \<or> 0 < total_errors parse fs (discover entries)
           then 1 else 0)\<close>
proof (cases \<open>discover entries = []\<close>)
  case True
  then show ?thesis by (simp add: main_def)
next
  case False
  note ml = main_loop_completes [OF assms, of run0]
  show ?thesis
    unfolding main_after_loop [OF ml False]
    using False
    by (simp only: run.simps snd_cross_file total_errors_def run0_def) simp
qed

lemma total_errors_cong:
  assumes \<open>\<forall>f \<in> set fl. file_errors parse' fs' f = file_errors parse fs f
              \<and> file_id parse' fs' f = file_id parse fs f\<close>
  shows \<open>total_errors parse' fs' fl = total_errors parse fs fl\<close>
proof -
  have a: \<open>sum_list (map (file_errors parse' fs') fl) = sum_list (map (file_errors parse fs) fl)\<close>
    using assms by (intro arg_cong [where f = sum_list] map_cong) simp_all
  have \<open>declaring parse' fs' fl i = declaring parse fs fl i\<close> for i
    unfolding declaring_def using assms by (intro filter_cong) simp_all
  then have b: \<open>duplicated parse' fs' fl = duplicated parse fs fl\<close>
    by (simp add: duplicated_def)
  show ?thesis
    unfolding total_errors_def a b ..
qed

lemma errs_check_filename:
  \<open>errs (check_filename filename start) =
     (if FILENAME_RE_test filename then []
      else [''Filename "'' @ filename
              @ ''" must be lowercase, hyphenated (e.g., my-strategy.json)''])\<close>
  by (simp add: check_filename_def start_def)

lemma warns_check_filename [simp]: \<open>warns (check_filename filename d) = warns d\<close>
  by (simp add: check_filename_def)

lemma validateFile_diags_Inl:
  assumes \<open>read_parse parse fs filename = Inl msg\<close>
  shows \<open>validateFile_diags parse fs filename =
     Inr \<lparr>errs = errs (check_filename filename start) @ [''Invalid JSON: '' @ msg],
          warns = [], extractedId = None\<rparr>\<close>
  using assms by (simp add: validateFile_diags_def Let_def start_def check_filename_def)

lemma validateFile_diags_shape:
  assumes \<open>read_parse parse fs filename = Inr v\<close> and \<open>\<forall>kvs. v \<noteq> JObj kvs\<close>
  shows \<open>validateFile_diags parse fs filename =
     Inr \<lparr>errs = errs (check_filename filename start) @ [''Top-level value must be a JSON object''],
          warns = [], extractedId = None\<rparr>\<close>
proof -
  from assms(2) have \<open>v = JNull \<or> typeof (Some v) \<noteq> ''object'' \<or> isArray v\<close>
    by (cases v) simp_all
  with assms(1) show ?thesis
    by (simp add: validateFile_diags_def Let_def start_def check_filename_def)
qed

lemma invalid_json_reported_once:
  \<open>filter (\<lambda>e. take 14 e = ''Invalid JSON: '')
       (errs (check_filename filename start) @ [''Invalid JSON: '' @ msg])
     = [''Invalid JSON: '' @ msg]\<close>
  by (simp add: errs_check_filename)

lemma validateFile_Inl:
  assumes \<open>read_parse parse fs filename = Inl msg\<close>
  shows \<open>validateFile parse fs filename =
     (Log (''\<newline>Validating strategies/'' @ filename)
        # printResults (errs (check_filename filename start) @ [''Invalid JSON: '' @ msg]) [],
      Inr \<lparr>errors = length (errs (check_filename filename start)) + 1, warnings = 0,
           id' = None\<rparr>)\<close>
  by (simp add: validateFile_def validateFile_diags_Inl [OF assms])

lemma sum_list_pos_member:
  \<open>f \<in> set fl \<Longrightarrow> 0 < g f \<Longrightarrow> 0 < sum_list (map g fl)\<close> for g :: \<open>string \<Rightarrow> nat\<close>
  by (induction fl) auto

subsection \<open>The field checks\<close>

lemma loop_state:
  assumes \<open>snd (main_loop parse fs fl run0) = Inr st\<close>
  shows \<open>idMap st = foldl (add_file parse fs) [] fl\<close>
    and \<open>totalErrors st = sum_list (map (file_errors parse fs) fl)\<close>
    and \<open>totalWarnings st = sum_list (map (file_warnings parse fs) fl)\<close>
proof -
  obtain out where \<open>main_loop parse fs fl run0 = (out, Inr st)\<close>
    using assms by (cases \<open>main_loop parse fs fl run0\<close>) simp
  then have \<open>\<forall>f \<in> set fl. completes parse fs f\<close>
    by (rule main_loop_throws)
  from main_loop_completes [OF this, of run0] assms
  show \<open>idMap st = foldl (add_file parse fs) [] fl\<close>
    and \<open>totalErrors st = sum_list (map (file_errors parse fs) fl)\<close>
    and \<open>totalWarnings st = sum_list (map (file_warnings parse fs) fl)\<close>
    by (auto simp: run0_def)
qed

lemma count_identifiers:
  \<open>length (foldl (add_file parse fs) [] fl) = card {i. declaring parse fs fl i \<noteq> []}\<close>
proof -
  let ?M = \<open>foldl (add_file parse fs) [] fl\<close>
  have d: \<open>distinct (map fst ?M)\<close>
    by (rule distinct_build) simp
  have \<open>set (map fst ?M) = {i. declaring parse fs fl i \<noteq> []}\<close>
  proof (rule set_eqI)
    fix i
    show \<open>i \<in> set (map fst ?M) \<longleftrightarrow> i \<in> {i. declaring parse fs fl i \<noteq> []}\<close>
    proof
      assume \<open>i \<in> set (map fst ?M)\<close>
      then obtain v where \<open>(i, v) \<in> set ?M\<close> by auto
      with build_entries [of i v parse fs fl] show \<open>i \<in> {i. declaring parse fs fl i \<noteq> []}\<close>
        by blast
    next
      assume \<open>i \<in> {i. declaring parse fs fl i \<noteq> []}\<close>
      then have \<open>declaring parse fs fl i \<noteq> []\<close> by simp
      from build_has_entry [OF this] show \<open>i \<in> set (map fst ?M)\<close>
        by force
    qed
  qed
  with d have \<open>card {i. declaring parse fs fl i \<noteq> []} = length (map fst ?M)\<close>
    using distinct_card by fastforce
  then show ?thesis by simp
qed

lemma typeof_is_str: \<open>typeof v = ''string'' \<longleftrightarrow> is_str v\<close>
  by (cases v rule: is_str.cases) simp_all

lemma is_str_truthy: \<open>is_str v \<Longrightarrow> truthy v \<longleftrightarrow> str_of v \<noteq> []\<close>
  by (cases v rule: is_str.cases) simp_all

lemma example_body:
  \<open>examples_loop i (ex # rest) es = examples_loop (Suc i) rest (es @ example_errors i ex)\<close>
  by (cases ex) (simp_all add: example_errors_def typeof_is_str Let_def)

lemma examples_loop_eq:
  \<open>examples_loop i xs es
     = es @ concat (map (\<lambda>(j, ex). example_errors j ex) (enumerate i xs))\<close>
proof (induction xs arbitrary: i es)
  case Nil
  then show ?case by simp
next
  case (Cons ex xs)
  show ?case
    by (simp only: example_body Cons.IH) simp
qed

lemma example_ok_no_errors: \<open>example_ok ex \<Longrightarrow> example_errors i ex = []\<close>
  by (cases ex) (simp_all add: example_ok_def example_errors_def)

lemma examples_ok_no_errors:
  \<open>list_all example_ok xs
     \<Longrightarrow> concat (map (\<lambda>(j, ex). example_errors j ex) (enumerate i xs)) = []\<close>
  by (induction xs arbitrary: i) (simp_all add: example_ok_no_errors)

lemma unknown_loop_eq:
  \<open>unknown_loop ks ws
     = ws @ map (\<lambda>key. ''Unknown field "'' @ key @ ''" (will be ignored on import)'')
              (filter (\<lambda>key. key \<notin> set knownFields) ks)\<close>
  by (induction ks ws rule: unknown_loop.induct) simp_all

lemma errs_check_unknown [simp]: \<open>errs (check_unknown p d) = errs d\<close>
  by (simp add: check_unknown_def)

lemma errs_check_examples:
  \<open>errs (check_examples p d) =
     errs d @ (case property p ''examples'' of
                 None \<Rightarrow> []
               | Some (JArr xs) \<Rightarrow>
                   concat (map (\<lambda>(j, ex). example_errors j ex) (enumerate 0 xs))
               | Some v \<Rightarrow> [''Field "examples" must be an array''])\<close>
  by (simp add: check_examples_def examples_loop_eq split: option.splits json.splits)

lemma warns_check_examples:
  \<open>warns (check_examples p d) =
     warns d @ (if property p ''examples'' = None
                then [''Field "examples" is missing (will default to empty array on import)'']
                else [])\<close>
  by (simp add: check_examples_def split: option.splits json.splits)

lemma warns_check_unknown:
  \<open>warns (check_unknown p d) =
     warns d @ map (\<lambda>key. ''Unknown field "'' @ key @ ''" (will be ignored on import)'')
                 (filter (\<lambda>key. key \<notin> set knownFields) (keys p))\<close>
  by (simp add: check_unknown_def unknown_loop_eq)

lemma validateFile_diags_object:
  assumes \<open>read_parse parse fs filename = Inr (JObj kvs)\<close>
  shows \<open>validateFile_diags parse fs filename =
     (case checks_to_category filename (JObj kvs) (check_filename filename start) of
        Inl e \<Rightarrow> Inl e
      | Inr d1 \<Rightarrow> Inr (check_unknown (JObj kvs) (check_examples (JObj kvs) d1)))\<close>
  using assms by (simp add: validateFile_diags_def check_fields_def)

lemma check_id_present:
  assumes \<open>property p ''id'' = Some (JStr s)\<close> and \<open>s \<noteq> []\<close>
  shows \<open>check_id filename p d =
     d\<lparr>extractedId := Some s,
       warns := warns d
         @ (if s = basename filename (extname filename) then []
            else [''id "'' @ s @ ''" does not match filename stem "''
                    @ basename filename (extname filename) @ ''"''])\<rparr>\<close>
  using assms by (simp add: check_id_def Let_def)

lemma check_id_absent:
  assumes \<open>\<forall>s. property p ''id'' = Some (JStr s) \<longrightarrow> s = []\<close>
  shows \<open>check_id filename p d =
     d\<lparr>errs := errs d @ [''Required field "id" is missing or not a non-empty string'']\<rparr>\<close>
proof -
  have \<open>typeof (property p ''id'') \<noteq> ''string'' \<or> \<not> truthy (property p ''id'')\<close>
    using assms by (cases \<open>property p ''id''\<close> rule: typeof.cases) simp_all
  then show ?thesis
    by (simp add: check_id_def)
qed

lemma warns_check_category:
  \<open>check_category p d = Inr d' \<Longrightarrow> set (warns d) \<subseteq> set (warns d')\<close>
  by (auto simp: check_category_def split: option.splits if_splits)

lemma warns_after_id:
  assumes \<open>checks_to_category filename p d = Inr d1\<close>
  shows \<open>set (warns (check_id filename p d))
     \<subseteq> set (warns (check_unknown p (check_examples p d1)))\<close>
proof -
  have \<open>set (warns (check_id filename p d))
      \<subseteq> set (warns (check_description p (check_supplement p
            (check_name p (check_id filename p d)))))\<close>
    by (auto simp: check_description_def check_supplement_def check_name_def)
  also have \<open>\<dots> \<subseteq> set (warns d1)\<close>
    using assms unfolding checks_to_category_def by (rule warns_check_category)
  also have \<open>\<dots> \<subseteq> set (warns (check_unknown p (check_examples p d1)))\<close>
    by (auto simp: warns_check_unknown warns_check_examples)
  finally show ?thesis .
qed

lemma enumerate_middle:
  \<open>enumerate n (pre @ x # post)
     = enumerate n pre @ (n + length pre, x) # enumerate (Suc (n + length pre)) post\<close>
  by (induction pre arbitrary: n) simp_all

lemma declaring_member:
  \<open>f \<in> set (declaring parse fs fl i) \<longleftrightarrow> f \<in> set fl \<and> file_id parse fs f = Some i\<close>
  by (auto simp: declaring_def)

lemma file_id_diags:
  \<open>validateFile_diags parse fs f = Inr d \<Longrightarrow> file_id parse fs f = extractedId d\<close>
  by (simp add: file_id_def validateFile_def)

lemma file_id_throws:
  \<open>validateFile_diags parse fs f = Inl e \<Longrightarrow> file_id parse fs f = None\<close>
  by (simp add: file_id_def validateFile_def)

lemma extractedId_object:
  assumes \<open>read_parse parse fs filename = Inr (JObj kvs)\<close>
    and \<open>validateFile_diags parse fs filename = Inr d\<close>
  shows \<open>extractedId d = extractedId (check_id filename (JObj kvs) (check_filename filename start))\<close>
  using assms(2) unfolding validateFile_diags_object [OF assms(1)] checks_to_category_def
  by (auto split: sum.splits dest!: extractedId_check_category)

lemma is_str_not_None: \<open>is_str v \<Longrightarrow> v \<noteq> None\<close>
  by (cases v) auto

lemma is_str_value: \<open>is_str v \<Longrightarrow> v = Some (JStr (str_of v))\<close>
  by (cases v rule: is_str.cases) simp_all

lemma other_checks:
  assumes \<open>other_checks_pass p\<close>
  shows \<open>\<exists>d1. checks_to_category f p d = Inr d1
     \<and> errs d1 = errs (check_id f p d)
     \<and> errs (check_examples p d1) = errs d1\<close>
proof -
  from assms have n: \<open>check_name p d' = d'\<close> for d'
    by (simp add: other_checks_pass_def check_name_def typeof_is_str is_str_truthy)
  from assms have s: \<open>check_supplement p d' = d'\<close> for d'
    by (simp add: other_checks_pass_def check_supplement_def typeof_is_str)
  from assms have de: \<open>errs (check_description p d') = errs d'\<close> for d'
    by (auto simp: other_checks_pass_def check_description_def typeof_is_str)
  from assms have c: \<open>\<exists>d1. check_category p d' = Inr d1 \<and> errs d1 = errs d'\<close> for d'
    by (auto simp: other_checks_pass_def check_category_def split: option.splits)
  have e: \<open>errs (check_examples p d') = errs d'\<close> for d'
  proof (cases \<open>property p ''examples''\<close>)
    case None
    then show ?thesis by (simp add: errs_check_examples)
  next
    case (Some v)
    with assms obtain xs where \<open>v = JArr xs\<close> \<open>list_all example_ok xs\<close>
      by (cases v) (simp_all add: other_checks_pass_def)
    with Some show ?thesis
      by (simp add: errs_check_examples examples_ok_no_errors)
  qed
  from c [of \<open>check_description p (check_id f p d)\<close>] show ?thesis
    by (auto simp: checks_to_category_def n s de e)
qed

lemma conforming_diags:
  assumes \<open>read_parse parse fs filename = Inr parsed\<close> and \<open>conforming filename parsed\<close>
  shows \<open>validateFile_diags parse fs filename =
     Inr \<lparr>errs = [], warns = [], extractedId = Some (str_of (property parsed ''id''))\<rparr>\<close>
proof -
  from assms(2) obtain kvs where p: \<open>parsed = JObj kvs\<close>
    by (cases parsed) (simp_all add: conforming_def)
  from assms(2) have f: \<open>check_filename filename d = d\<close> for d
    by (simp add: conforming_def check_filename_def)
  have i: \<open>check_id filename parsed d = d\<lparr>extractedId := Some (str_of (property parsed ''id''))\<rparr>\<close> for d
  proof -
    from assms(2) have \<open>property parsed ''id'' = Some (JStr (str_of (property parsed ''id'')))\<close>
      using assms(2) [unfolded conforming_def] by (intro is_str_value) blast
    moreover from assms(2) [unfolded conforming_def]
    have \<open>str_of (property parsed ''id'') \<noteq> []\<close>
      and \<open>str_of (property parsed ''id'') = basename filename (extname filename)\<close>
      by blast+
    ultimately show ?thesis
      using check_id_present [of parsed \<open>str_of (property parsed ''id'')\<close> filename d]
      by simp
  qed
  from assms(2) have n: \<open>check_name parsed d = d\<close> for d
    by (simp add: conforming_def check_name_def typeof_is_str is_str_truthy)
  from assms(2) have s: \<open>check_supplement parsed d = d\<close> for d
    by (simp add: conforming_def check_supplement_def typeof_is_str)
  from assms(2) have de: \<open>check_description parsed d = d\<close> for d
    by (simp add: conforming_def check_description_def typeof_is_str is_str_not_None)
  from assms(2) have c: \<open>check_category parsed d = Inr d\<close> for d
    by (auto simp: conforming_def check_category_def split: option.splits)
  have e: \<open>check_examples parsed d = d\<close> for d
  proof -
    from assms(2) obtain v where v: \<open>property parsed ''examples'' = Some v\<close>
      by (cases \<open>property parsed ''examples''\<close>) (simp_all add: conforming_def)
    with assms(2) obtain xs where \<open>v = JArr xs\<close> \<open>list_all example_ok xs\<close>
      by (cases v) (simp_all add: conforming_def)
    with v show ?thesis
      by (simp add: check_examples_def examples_loop_eq examples_ok_no_errors)
  qed
  from assms(2) have \<open>filter (\<lambda>key. key \<notin> set knownFields) (keys parsed) = []\<close>
    by (simp add: conforming_def list_all_iff filter_empty_conv)
  then have u: \<open>check_unknown parsed d = d\<close> for d
    by (simp add: check_unknown_def unknown_loop_eq)
  show ?thesis
    unfolding p validateFile_diags_object [OF assms(1) [unfolded p]]
    unfolding p [symmetric]
    by (simp add: checks_to_category_def f i n s de c e u start_def)
qed

subsection \<open>When validation returns\<close>

lemma check_category_returns:
  \<open>(\<exists>d'. check_category p d = Inr d') \<longleftrightarrow> category_prints p\<close>
  by (auto simp: check_category_def category_prints_def split: option.splits)

lemma validateFile_diags_returns:
  assumes \<open>read_parse parse fs filename = Inr (JObj kvs)\<close>
  shows \<open>(\<exists>d. validateFile_diags parse fs filename = Inr d) \<longleftrightarrow> category_prints (JObj kvs)\<close>
  unfolding validateFile_diags_object [OF assms] checks_to_category_def
    check_category_returns [symmetric, of \<open>JObj kvs\<close>
      \<open>check_description (JObj kvs) (check_supplement (JObj kvs) (check_name (JObj kvs)
         (check_id filename (JObj kvs) (check_filename filename start))))\<close>]
  by (auto split: sum.splits)

lemma validateFile_diags_throws:
  \<open>validateFile_diags parse fs filename = Inl e \<longleftrightarrow>
     e = TypeError
     \<and> (\<exists>kvs. read_parse parse fs filename = Inr (JObj kvs) \<and> \<not> category_prints (JObj kvs))\<close>
proof (cases \<open>read_parse parse fs filename\<close>)
  case (Inl msg)
  then show ?thesis by (simp add: validateFile_diags_Inl)
next
  case (Inr v)
  show ?thesis
  proof (cases \<open>\<exists>kvs. v = JObj kvs\<close>)
    case False
    then have \<open>\<forall>kvs. v \<noteq> JObj kvs\<close> by simp
    from validateFile_diags_shape [OF Inr this] False Inr show ?thesis by simp
  next
    case True
    then obtain kvs where v: \<open>v = JObj kvs\<close> ..
    have \<open>validateFile_diags parse fs filename = Inl e \<longleftrightarrow>
        e = TypeError \<and> \<not> category_prints (JObj kvs)\<close>
      unfolding validateFile_diags_object [OF Inr [unfolded v]] checks_to_category_def
      by (auto simp: check_category_def category_prints_def split: sum.splits option.splits)
    with Inr v show ?thesis by simp
  qed
qed

lemma completes_iff:
  \<open>completes parse fs f \<longleftrightarrow>
     (\<forall>kvs. read_parse parse fs f = Inr (JObj kvs) \<longrightarrow> category_prints (JObj kvs))\<close>
proof (cases \<open>validateFile_diags parse fs f\<close>)
  case (Inl e)
  then have \<open>\<not> completes parse fs f\<close>
    by (simp add: completes_def validateFile_def)
  moreover from Inl have \<open>\<exists>kvs. read_parse parse fs f = Inr (JObj kvs) \<and> \<not> category_prints (JObj kvs)\<close>
    by (simp add: validateFile_diags_throws)
  ultimately show ?thesis by blast
next
  case (Inr d)
  then have c: \<open>completes parse fs f\<close>
    by (simp add: completes_def validateFile_def)
  have \<open>category_prints (JObj kvs)\<close> if \<open>read_parse parse fs f = Inr (JObj kvs)\<close> for kvs
    using validateFile_diags_returns [OF that] Inr by blast
  with c show ?thesis by blast
qed

text \<open>The crash on a document of the sample directory.\<close>

lemma validateFile_throws_example:
  \<open>validateFile sample_parse sample_fs ''crash.json''
     = ([Log ''\<newline>Validating strategies/crash.json''], Inl TypeError)\<close>
  by code_simp

text \<open>
  The subtraction of line 66 is never cut off: no more files pass than were validated.
\<close>

lemma passedFiles_le:
  assumes \<open>snd (main_loop parse fs fl run0) = Inr st\<close>
  shows \<open>passedFiles st \<le> length fl\<close>
proof -
  obtain out where \<open>main_loop parse fs fl run0 = (out, Inr st)\<close>
    using assms by (cases \<open>main_loop parse fs fl run0\<close>) simp
  then have \<open>\<forall>f \<in> set fl. completes parse fs f\<close>
    by (rule main_loop_throws)
  from main_loop_completes [OF this, of run0] assms
  have \<open>passedFiles st = length (filter (\<lambda>f. file_errors parse fs f = 0) fl)\<close>
    by (auto simp: run0_def)
  then show ?thesis by simp
qed

section \<open>The claims\<close>

subsection \<open>C1\<close>

text \<open>
  C1, as the program has it. In every run in which the directory is listed and
  \<open>validateFile\<close> returns for every discovered file, the exit status is 1 if and only if
  no candidate file was discovered or the total error count is greater than zero (the
  errors of every discovered file plus one for every identifier that more than one file
  declares), and 0 otherwise. Warnings have no effect on it: a run over the same
  directory in which every file has the same number of errors and the same identifier
  ends with the same status, whatever its warnings.
\<close>

theorem C1_exit_status:
  assumes \<open>\<forall>f \<in> set (discover entries). completes parse fs f\<close>
  shows \<open>snd (main parse fs (Inr entries)) =
       Exit (if discover entries = [] \<or> 0 < total_errors parse fs (discover entries)
             then 1 else 0)
     \<and> (\<forall>parse' fs'.
          (\<forall>f \<in> set (discover entries).
              completes parse' fs' f
              \<and> file_errors parse' fs' f = file_errors parse fs f
              \<and> file_id parse' fs' f = file_id parse fs f)
          \<longrightarrow> snd (main parse' fs' (Inr entries)) = snd (main parse fs (Inr entries)))\<close>
proof (intro conjI allI impI)
  show \<open>snd (main parse fs (Inr entries)) =
       Exit (if discover entries = [] \<or> 0 < total_errors parse fs (discover entries)
             then 1 else 0)\<close>
    by (rule main_exit [OF assms])
next
  fix parse' fs'
  assume h: \<open>\<forall>f \<in> set (discover entries).
              completes parse' fs' f
              \<and> file_errors parse' fs' f = file_errors parse fs f
              \<and> file_id parse' fs' f = file_id parse fs f\<close>
  then have c: \<open>\<forall>f \<in> set (discover entries). completes parse' fs' f\<close> by simp
  have \<open>total_errors parse' fs' (discover entries) = total_errors parse fs (discover entries)\<close>
    by (rule total_errors_cong) (use h in simp)
  then show \<open>snd (main parse' fs' (Inr entries)) = snd (main parse fs (Inr entries))\<close>
    by (simp add: main_exit [OF assms] main_exit [OF c])
qed

theorem C1_exit_status_witness:
  \<open>discover [''gamma.json'', ''README.md'', ''alpha.json''] = [''alpha.json'', ''gamma.json'']
   \<and> completes sample_parse sample_fs ''alpha.json''
   \<and> completes sample_parse sample_fs ''gamma.json''
   \<and> snd (main sample_parse sample_fs (Inr [''gamma.json'', ''README.md'', ''alpha.json'']))
       = Exit 1
   \<and> 0 < total_errors sample_parse sample_fs [''alpha.json'', ''gamma.json'']
   \<and> file_warnings sample_parse sample_fs ''gamma.json'' = 4
   \<and> file_warnings sample_parse sample_fs_quiet ''gamma.json'' = 1
   \<and> snd (main sample_parse sample_fs_quiet (Inr [''gamma.json'', ''README.md'', ''alpha.json'']))
       = Exit 1\<close>
proof -
  have d: \<open>discover [''gamma.json'', ''README.md'', ''alpha.json'']
      = [''alpha.json'', ''gamma.json'']\<close>
    by code_simp
  have c: \<open>completes sample_parse sample_fs ''alpha.json''\<close>
    \<open>completes sample_parse sample_fs ''gamma.json''\<close>
    by code_simp+
  then have h: \<open>\<forall>f \<in> set (discover [''gamma.json'', ''README.md'', ''alpha.json'']).
       completes sample_parse sample_fs f\<close>
    unfolding d by simp
  have e: \<open>snd (main sample_parse sample_fs (Inr [''gamma.json'', ''README.md'', ''alpha.json'']))
      = Exit 1\<close>
    by code_simp
  note t = C1_exit_status [OF h, THEN conjunct1, unfolded e d]
  have p: \<open>0 < total_errors sample_parse sample_fs [''alpha.json'', ''gamma.json'']\<close>
    by (rule ccontr) (use t in simp)
  have w: \<open>file_warnings sample_parse sample_fs ''gamma.json'' = 4\<close>
    \<open>file_warnings sample_parse sample_fs_quiet ''gamma.json'' = 1\<close>
    by code_simp+
  have q: \<open>completes sample_parse sample_fs_quiet ''alpha.json''
      \<and> file_errors sample_parse sample_fs_quiet ''alpha.json''
          = file_errors sample_parse sample_fs ''alpha.json''
      \<and> file_id sample_parse sample_fs_quiet ''alpha.json''
          = file_id sample_parse sample_fs ''alpha.json''\<close>
    \<open>completes sample_parse sample_fs_quiet ''gamma.json''
      \<and> file_errors sample_parse sample_fs_quiet ''gamma.json''
          = file_errors sample_parse sample_fs ''gamma.json''
      \<and> file_id sample_parse sample_fs_quiet ''gamma.json''
          = file_id sample_parse sample_fs ''gamma.json''\<close>
    by code_simp+
  then have q': \<open>\<forall>f \<in> set (discover [''gamma.json'', ''README.md'', ''alpha.json'']).
      completes sample_parse sample_fs_quiet f
      \<and> file_errors sample_parse sample_fs_quiet f = file_errors sample_parse sample_fs f
      \<and> file_id sample_parse sample_fs_quiet f = file_id sample_parse sample_fs f\<close>
    unfolding d by simp
  from C1_exit_status [OF h, THEN conjunct2, THEN spec, THEN spec, THEN mp, OF q']
  have \<open>snd (main sample_parse sample_fs_quiet (Inr [''gamma.json'', ''README.md'', ''alpha.json'']))
      = snd (main sample_parse sample_fs (Inr [''gamma.json'', ''README.md'', ''alpha.json'']))\<close> .
  with e have r: \<open>snd (main sample_parse sample_fs_quiet
      (Inr [''gamma.json'', ''README.md'', ''alpha.json''])) = Exit 1\<close>
    by simp
  from d c e p w r show ?thesis by blast
qed

text \<open>
  The claim as stated fails on a directory without a candidate file: the total error
  count is zero and the exit status is 1 (lines 27-30).
\<close>

theorem C1_exit_status_counterexample:
  \<open>total_errors sample_parse sample_fs (discover [''README.md'']) = 0
   \<and> snd (main sample_parse sample_fs (Inr [''README.md''])) = Exit 1\<close>
proof -
  have d: \<open>discover [''README.md''] = []\<close>
    by code_simp
  show ?thesis
    by (simp add: d total_errors_def duplicated_def declaring_def main_def)
qed

subsection \<open>C2\<close>

text \<open>
  C2, as the program has it. When the content of a file does not parse, \<open>validateFile\<close>
  adds to what the filename check has recorded exactly one error, which holds the message
  of the parse failure; it records no warning, makes no check of a field and returns the
  identifier \<open>null\<close>. When the content parses to a value that is not a keyed record (null,
  a sequence, a boolean, a number, a string) it likewise adds exactly one error, that of
  the top-level shape, and returns the identifier \<open>null\<close>. The filename check has recorded
  nothing for a filename that follows the naming convention (the file then has exactly
  one error) and one error for any other filename (the file then has two).
\<close>

theorem C2_structural_failure:
  \<open>(fs filename = Inr content \<and> parse content = Inl msg \<longrightarrow>
      validateFile_diags parse fs filename =
        Inr \<lparr>errs = errs (check_filename filename start) @ [''Invalid JSON: '' @ msg],
             warns = [], extractedId = None\<rparr>
      \<and> snd (validateFile parse fs filename) =
        Inr \<lparr>errors = length (errs (check_filename filename start)) + 1, warnings = 0,
             id' = None\<rparr>)
   \<and> (fs filename = Inr content \<and> parse content = Inr v \<and> (\<forall>kvs. v \<noteq> JObj kvs) \<longrightarrow>
      validateFile_diags parse fs filename =
        Inr \<lparr>errs = errs (check_filename filename start)
                    @ [''Top-level value must be a JSON object''],
             warns = [], extractedId = None\<rparr>
      \<and> snd (validateFile parse fs filename) =
        Inr \<lparr>errors = length (errs (check_filename filename start)) + 1, warnings = 0,
             id' = None\<rparr>)
   \<and> errs (check_filename filename start) =
       (if FILENAME_RE_test filename then []
        else [''Filename "'' @ filename
                @ ''" must be lowercase, hyphenated (e.g., my-strategy.json)''])\<close>
proof (intro conjI impI)
  assume h: \<open>fs filename = Inr content \<and> parse content = Inl msg\<close>
  then have r: \<open>read_parse parse fs filename = Inl msg\<close>
    by (simp add: read_parse_def)
  show \<open>validateFile_diags parse fs filename =
        Inr \<lparr>errs = errs (check_filename filename start) @ [''Invalid JSON: '' @ msg],
             warns = [], extractedId = None\<rparr>\<close>
    by (rule validateFile_diags_Inl [OF r])
  then show \<open>snd (validateFile parse fs filename) =
        Inr \<lparr>errors = length (errs (check_filename filename start)) + 1, warnings = 0,
             id' = None\<rparr>\<close>
    by (simp add: validateFile_def)
next
  assume h: \<open>fs filename = Inr content \<and> parse content = Inr v \<and> (\<forall>kvs. v \<noteq> JObj kvs)\<close>
  then have r: \<open>read_parse parse fs filename = Inr v\<close> and nv: \<open>\<forall>kvs. v \<noteq> JObj kvs\<close>
    by (simp_all add: read_parse_def)
  show \<open>validateFile_diags parse fs filename =
        Inr \<lparr>errs = errs (check_filename filename start)
                    @ [''Top-level value must be a JSON object''],
             warns = [], extractedId = None\<rparr>\<close>
    by (rule validateFile_diags_shape [OF r nv])
  then show \<open>snd (validateFile parse fs filename) =
        Inr \<lparr>errors = length (errs (check_filename filename start)) + 1, warnings = 0,
             id' = None\<rparr>\<close>
    by (simp add: validateFile_def)
next
  show \<open>errs (check_filename filename start) =
       (if FILENAME_RE_test filename then []
        else [''Filename "'' @ filename
                @ ''" must be lowercase, hyphenated (e.g., my-strategy.json)''])\<close>
    by (rule errs_check_filename)
qed

theorem C2_structural_failure_witness:
  \<open>(sample_fs ''broken.json'' = Inr ''{''
      \<and> sample_parse ''{'' = Inl ''Unexpected end of JSON input'')
   \<and> snd (validateFile sample_parse sample_fs ''broken.json'')
       = Inr \<lparr>errors = 1, warnings = 0, id' = None\<rparr>
   \<and> (sample_fs ''list.json'' = Inr ''[]'' \<and> sample_parse ''[]'' = Inr (JArr [])
        \<and> (\<forall>kvs. JArr [] \<noteq> JObj kvs))
   \<and> snd (validateFile sample_parse sample_fs ''list.json'')
       = Inr \<lparr>errors = 1, warnings = 0, id' = None\<rparr>\<close>
proof -
  have h1: \<open>sample_fs ''broken.json'' = Inr ''{''
      \<and> sample_parse ''{'' = Inl ''Unexpected end of JSON input''\<close>
    by code_simp
  have \<open>sample_fs ''list.json'' = Inr ''[]'' \<and> sample_parse ''[]'' = Inr (JArr [])\<close>
    by code_simp
  then have h2: \<open>sample_fs ''list.json'' = Inr ''[]'' \<and> sample_parse ''[]'' = Inr (JArr [])
        \<and> (\<forall>kvs. JArr [] \<noteq> JObj kvs)\<close>
    by simp
  have f1: \<open>FILENAME_RE_test ''broken.json''\<close> and f2: \<open>FILENAME_RE_test ''list.json''\<close>
    by code_simp+
  from C2_structural_failure [of sample_fs \<open>''broken.json''\<close> \<open>''{''\<close> sample_parse
      \<open>''Unexpected end of JSON input''\<close>] h1 f1
  have a: \<open>snd (validateFile sample_parse sample_fs ''broken.json'')
       = Inr \<lparr>errors = 1, warnings = 0, id' = None\<rparr>\<close>
    by simp
  from C2_structural_failure [of sample_fs \<open>''list.json''\<close> \<open>''[]''\<close> sample_parse _ \<open>JArr []\<close>] h2 f2
  have b: \<open>snd (validateFile sample_parse sample_fs ''list.json'')
       = Inr \<lparr>errors = 1, warnings = 0, id' = None\<rparr>\<close>
    by simp
  from h1 h2 a b show ?thesis by blast
qed

text \<open>
  The claim as stated, exactly one error, fails for a file that does not parse and whose
  name breaks the naming convention: it has two errors (lines 82-84 and 92).
\<close>

theorem C2_structural_failure_counterexample:
  \<open>sample_fs ''Broken.json'' = Inr ''{''
   \<and> sample_parse ''{'' = Inl ''Unexpected end of JSON input''
   \<and> snd (validateFile sample_parse sample_fs ''Broken.json'')
       = Inr \<lparr>errors = 2, warnings = 0, id' = None\<rparr>\<close>
  by code_simp

subsection \<open>C3\<close>

text \<open>
  C3. The identifier map a run builds holds each identifier once, mapped to the files
  that declared it in the order of discovery, and every identifier that some file declared
  is in it. On that map the cross-file check prints its header, then exactly one \<open>FAIL\<close> line
  for each identifier mapped to more than one filename, which names the identifier and its
  filenames joined by a comma and a space, and, when no identifier is duplicated, exactly
  one \<open>ok\<close> line that states the number of distinct identifiers. The number of errors the
  check reports is the number of duplicated identifiers: the \<open>ok\<close> line counts for nothing.
\<close>

theorem C3_cross_file:
  assumes \<open>snd (main_loop parse fs fl run0) = Inr st\<close>
  shows \<open>distinct (map fst (idMap st))
     \<and> (\<forall>i fns. (i, fns) \<in> set (idMap st) \<longrightarrow> fns = declaring parse fs fl i \<and> fns \<noteq> [])
     \<and> (\<forall>i. declaring parse fs fl i \<noteq> [] \<longrightarrow> (i, declaring parse fs fl i) \<in> set (idMap st))
     \<and> cross_file (idMap st) =
         (Log ''\<newline>Cross-file checks:''
            # map (\<lambda>(i, fns). Log (''  FAIL  Duplicate id "'' @ i @ ''" in: '' @ join '', '' fns))
                (filter (\<lambda>(i, fns). 1 < length fns) (idMap st))
            @ (if filter (\<lambda>(i, fns). 1 < length fns) (idMap st) = []
               then [Log (''  ok    All '' @ show_nat (length (idMap st))
                            @ '' strategy IDs are unique'')]
               else []),
          length (filter (\<lambda>(i, fns). 1 < length fns) (idMap st)))
     \<and> length (filter (\<lambda>(i, fns). 1 < length fns) (idMap st)) = card (duplicated parse fs fl)
     \<and> length (idMap st) = card {i. declaring parse fs fl i \<noteq> []}\<close>
proof -
  note m = loop_state(1) [OF assms]
  have \<open>distinct (map fst (idMap st))\<close>
    unfolding m by (rule distinct_build) simp
  moreover have \<open>\<forall>i fns. (i, fns) \<in> set (idMap st) \<longrightarrow> fns = declaring parse fs fl i \<and> fns \<noteq> []\<close>
    unfolding m using build_entries by blast
  moreover have \<open>\<forall>i. declaring parse fs fl i \<noteq> [] \<longrightarrow> (i, declaring parse fs fl i) \<in> set (idMap st)\<close>
    unfolding m using build_has_entry by blast
  moreover note cross_file_eq [of \<open>idMap st\<close>]
  moreover have \<open>length (filter (\<lambda>(i, fns). 1 < length fns) (idMap st)) = card (duplicated parse fs fl)\<close>
    unfolding m by (rule count_duplicates)
  moreover have \<open>length (idMap st) = card {i. declaring parse fs fl i \<noteq> []}\<close>
    unfolding m by (rule count_identifiers)
  ultimately show ?thesis by blast
qed

theorem C3_cross_file_witness:
  \<open>snd (main_loop sample_parse sample_fs [''alpha.json'', ''delta.json'', ''gamma.json''] run0)
     = Inr \<lparr>totalErrors = 2, totalWarnings = 4, passedFiles = 2,
            idMap = [(''alpha'', [''alpha.json'', ''gamma.json'']), (''delta'', [''delta.json''])]\<rparr>
   \<and> cross_file [(''alpha'', [''alpha.json'', ''gamma.json'']), (''delta'', [''delta.json''])]
     = ([Log ''\<newline>Cross-file checks:'',
         Log ''  FAIL  Duplicate id "alpha" in: alpha.json, gamma.json''], 1)
   \<and> card (duplicated sample_parse sample_fs [''alpha.json'', ''delta.json'', ''gamma.json'']) = 1
   \<and> declaring sample_parse sample_fs [''alpha.json'', ''delta.json'', ''gamma.json''] ''alpha''
     = [''alpha.json'', ''gamma.json'']
   \<and> snd (main_loop sample_parse sample_fs [''alpha.json'', ''omega-2.json''] run0)
     = Inr \<lparr>totalErrors = 0, totalWarnings = 0, passedFiles = 2,
            idMap = [(''alpha'', [''alpha.json'']), (''omega-2'', [''omega-2.json''])]\<rparr>
   \<and> cross_file [(''alpha'', [''alpha.json'']), (''omega-2'', [''omega-2.json''])]
     = ([Log ''\<newline>Cross-file checks:'',
         Log ''  ok    All 2 strategy IDs are unique''], 0)\<close>
proof -
  have h: \<open>snd (main_loop sample_parse sample_fs [''alpha.json'', ''delta.json'', ''gamma.json''] run0)
     = Inr \<lparr>totalErrors = 2, totalWarnings = 4, passedFiles = 2,
            idMap = [(''alpha'', [''alpha.json'', ''gamma.json'']), (''delta'', [''delta.json''])]\<rparr>\<close>
    by code_simp
  note t = C3_cross_file [OF h]
  from t have a: \<open>cross_file [(''alpha'', [''alpha.json'', ''gamma.json'']), (''delta'', [''delta.json''])]
     = ([Log ''\<newline>Cross-file checks:'',
         Log ''  FAIL  Duplicate id "alpha" in: alpha.json, gamma.json''], 1)\<close>
    by simp
  from t have b: \<open>card (duplicated sample_parse sample_fs [''alpha.json'', ''delta.json'', ''gamma.json'']) = 1\<close>
    by simp
  from t have c: \<open>declaring sample_parse sample_fs [''alpha.json'', ''delta.json'', ''gamma.json''] ''alpha''
     = [''alpha.json'', ''gamma.json'']\<close>
    by simp
  have h': \<open>snd (main_loop sample_parse sample_fs [''alpha.json'', ''omega-2.json''] run0)
     = Inr \<lparr>totalErrors = 0, totalWarnings = 0, passedFiles = 2,
            idMap = [(''alpha'', [''alpha.json'']), (''omega-2'', [''omega-2.json''])]\<rparr>\<close>
    by code_simp
  from C3_cross_file [OF h']
  have a': \<open>cross_file [(''alpha'', [''alpha.json'']), (''omega-2'', [''omega-2.json''])]
     = ([Log ''\<newline>Cross-file checks:'',
         Log ''  ok    All 2 strategy IDs are unique''], 0)\<close>
    by (simp add: show_nat.simps digit_def)
  from h a b c h' a' show ?thesis by blast
qed

subsection \<open>C4\<close>

text \<open>
  C4, as the program has it. For a document that parses to a keyed record: when \<open>id\<close> is a
  non-empty string, the check of \<open>id\<close> records no error, sets the extracted identifier to
  that string whether or not it equals the stem of the filename, and records a warning
  exactly when it differs from the stem; whenever \<open>validateFile\<close> returns, the identifier
  it returns is that string and the warning is among those it returns, and in every run
  whose loop completes the file is listed under that identifier in the identifier map. When \<open>id\<close> is absent, not
  a string, or the empty string, the check records one error and the identifier returned
  is \<open>null\<close>.
\<close>

theorem C4_id_check:
  assumes \<open>read_parse parse fs filename = Inr (JObj kvs)\<close>
  shows \<open>(\<forall>s. map_of kvs ''id'' = Some (JStr s) \<and> s \<noteq> [] \<longrightarrow>
        (\<forall>d0. check_id filename (JObj kvs) d0 =
           d0\<lparr>extractedId := Some s,
              warns := warns d0
                @ (if s = basename filename (extname filename) then []
                   else [''id "'' @ s @ ''" does not match filename stem "''
                           @ basename filename (extname filename) @ ''"''])\<rparr>)
        \<and> (\<forall>d. validateFile_diags parse fs filename = Inr d \<longrightarrow>
              extractedId d = Some s
              \<and> (s \<noteq> basename filename (extname filename) \<longrightarrow>
                   ''id "'' @ s @ ''" does not match filename stem "''
                      @ basename filename (extname filename) @ ''"'' \<in> set (warns d)))
        \<and> (\<forall>fl st. snd (main_loop parse fs fl run0) = Inr st \<and> filename \<in> set fl \<longrightarrow>
              (\<exists>fns. (s, fns) \<in> set (idMap st) \<and> filename \<in> set fns)))
     \<and> ((\<forall>s. map_of kvs ''id'' = Some (JStr s) \<longrightarrow> s = []) \<longrightarrow>
        (\<forall>d0. check_id filename (JObj kvs) d0 =
           d0\<lparr>errs := errs d0
                @ [''Required field "id" is missing or not a non-empty string'']\<rparr>)
        \<and> (\<forall>d. validateFile_diags parse fs filename = Inr d \<longrightarrow> extractedId d = None))\<close>
proof (intro conjI allI impI)
  fix s d0
  assume h: \<open>map_of kvs ''id'' = Some (JStr s) \<and> s \<noteq> []\<close>
  then show \<open>check_id filename (JObj kvs) d0 =
           d0\<lparr>extractedId := Some s,
              warns := warns d0
                @ (if s = basename filename (extname filename) then []
                   else [''id "'' @ s @ ''" does not match filename stem "''
                           @ basename filename (extname filename) @ ''"''])\<rparr>\<close>
    by (intro check_id_present) simp_all
next
  fix s d
  assume h: \<open>map_of kvs ''id'' = Some (JStr s) \<and> s \<noteq> []\<close>
    and d: \<open>validateFile_diags parse fs filename = Inr d\<close>
  from h have c: \<open>check_id filename (JObj kvs) d0 =
           d0\<lparr>extractedId := Some s,
              warns := warns d0
                @ (if s = basename filename (extname filename) then []
                   else [''id "'' @ s @ ''" does not match filename stem "''
                           @ basename filename (extname filename) @ ''"''])\<rparr>\<close> for d0
    by (intro check_id_present) simp_all
  show \<open>extractedId d = Some s\<close>
    by (simp add: extractedId_object [OF assms d] c)
  show \<open>''id "'' @ s @ ''" does not match filename stem "''
          @ basename filename (extname filename) @ ''"'' \<in> set (warns d)\<close>
    if ne: \<open>s \<noteq> basename filename (extname filename)\<close>
  proof -
    from d obtain d1
      where d1: \<open>checks_to_category filename (JObj kvs) (check_filename filename start) = Inr d1\<close>
        and dd: \<open>d = check_unknown (JObj kvs) (check_examples (JObj kvs) d1)\<close>
      unfolding validateFile_diags_object [OF assms] by (auto split: sum.splits)
    have \<open>''id "'' @ s @ ''" does not match filename stem "''
          @ basename filename (extname filename) @ ''"''
        \<in> set (warns (check_id filename (JObj kvs) (check_filename filename start)))\<close>
      using ne by (simp add: c)
    with warns_after_id [OF d1] show ?thesis
      unfolding dd by blast
  qed
next
  fix s fl st
  assume h: \<open>map_of kvs ''id'' = Some (JStr s) \<and> s \<noteq> []\<close>
    and r: \<open>snd (main_loop parse fs fl run0) = Inr st \<and> filename \<in> set fl\<close>
  then obtain out where ml: \<open>main_loop parse fs fl run0 = (out, Inr st)\<close>
    by (cases \<open>main_loop parse fs fl run0\<close>) simp
  from main_loop_throws [OF ml] r have \<open>completes parse fs filename\<close>
    by simp
  then obtain d where d: \<open>validateFile_diags parse fs filename = Inr d\<close>
    by (cases \<open>validateFile_diags parse fs filename\<close>) (simp_all add: completes_def validateFile_def)
  from h have \<open>extractedId d = Some s\<close>
    by (simp add: extractedId_object [OF assms d] check_id_present)
  with d have \<open>file_id parse fs filename = Some s\<close>
    by (simp add: file_id_diags)
  with r have m: \<open>filename \<in> set (declaring parse fs fl s)\<close>
    by (simp add: declaring_member)
  then have \<open>declaring parse fs fl s \<noteq> []\<close>
    by auto
  moreover from r have \<open>idMap st = foldl (add_file parse fs) [] fl\<close>
    by (intro loop_state(1)) simp
  ultimately have \<open>(s, declaring parse fs fl s) \<in> set (idMap st)\<close>
    using build_has_entry by simp
  with m show \<open>\<exists>fns. (s, fns) \<in> set (idMap st) \<and> filename \<in> set fns\<close>
    by blast
next
  fix d0
  assume \<open>\<forall>s. map_of kvs ''id'' = Some (JStr s) \<longrightarrow> s = []\<close>
  then show \<open>check_id filename (JObj kvs) d0 =
           d0\<lparr>errs := errs d0
                @ [''Required field "id" is missing or not a non-empty string'']\<rparr>\<close>
    by (intro check_id_absent) simp
next
  fix d
  assume a: \<open>\<forall>s. map_of kvs ''id'' = Some (JStr s) \<longrightarrow> s = []\<close>
    and d: \<open>validateFile_diags parse fs filename = Inr d\<close>
  from a have \<open>check_id filename (JObj kvs) d0 =
           d0\<lparr>errs := errs d0
                @ [''Required field "id" is missing or not a non-empty string'']\<rparr>\<close> for d0
    by (intro check_id_absent) simp
  then show \<open>extractedId d = None\<close>
    by (simp add: extractedId_object [OF assms d] start_def)
qed

theorem C4_id_check_witness:
  \<open>read_parse sample_parse sample_fs ''gamma.json'' = Inr doc_gamma
   \<and> property doc_gamma ''id'' = Some (JStr ''alpha'')
   \<and> basename ''gamma.json'' (extname ''gamma.json'') = ''gamma''
   \<and> snd (validateFile sample_parse sample_fs ''gamma.json'')
       = Inr \<lparr>errors = 0, warnings = 4, id' = Some ''alpha''\<rparr>
   \<and> snd (main_loop sample_parse sample_fs [''alpha.json'', ''gamma.json''] run0)
       = Inr \<lparr>totalErrors = 0, totalWarnings = 4, passedFiles = 2,
              idMap = [(''alpha'', [''alpha.json'', ''gamma.json''])]\<rparr>
   \<and> file_id sample_parse sample_fs ''gamma.json'' = Some ''alpha''
   \<and> check_id ''gamma.json'' doc_gamma start
       = \<lparr>errs = [], warns = [''id "alpha" does not match filename stem "gamma"''],
          extractedId = Some ''alpha''\<rparr>
   \<and> read_parse sample_parse sample_fs ''empty.json'' = Inr doc_empty_id
   \<and> property doc_empty_id ''id'' = Some (JStr '''')
   \<and> check_id ''empty.json'' doc_empty_id start
       = \<lparr>errs = [''Required field "id" is missing or not a non-empty string''],
          warns = [], extractedId = None\<rparr>
   \<and> file_id sample_parse sample_fs ''empty.json'' = None\<close>
proof -
  have h1: \<open>read_parse sample_parse sample_fs ''gamma.json'' = Inr doc_gamma\<close>
    by code_simp
  have h2: \<open>property doc_gamma ''id'' = Some (JStr ''alpha'')\<close>
    by code_simp
  have h3: \<open>basename ''gamma.json'' (extname ''gamma.json'') = ''gamma''\<close>
    by code_simp
  have h4: \<open>snd (validateFile sample_parse sample_fs ''gamma.json'')
       = Inr \<lparr>errors = 0, warnings = 4, id' = Some ''alpha''\<rparr>\<close>
    by code_simp
  have h5: \<open>snd (main_loop sample_parse sample_fs [''alpha.json'', ''gamma.json''] run0)
       = Inr \<lparr>totalErrors = 0, totalWarnings = 4, passedFiles = 2,
              idMap = [(''alpha'', [''alpha.json'', ''gamma.json''])]\<rparr>\<close>
    by code_simp
  obtain d where d: \<open>validateFile_diags sample_parse sample_fs ''gamma.json'' = Inr d\<close>
    using h4 by (cases \<open>validateFile_diags sample_parse sample_fs ''gamma.json''\<close>)
      (simp_all add: validateFile_def)
  have m: \<open>map_of [(''id'', JStr ''alpha''), (''name'', JStr ''Gamma''),
      (''supplement'', JStr ''text'')] ''id'' = Some (JStr ''alpha'') \<and> ''alpha'' \<noteq> []\<close>
    by simp
  note t = C4_id_check [OF h1 [unfolded doc_gamma_def], THEN conjunct1, rule_format, OF m]
  from t [THEN conjunct2, THEN conjunct1, rule_format, OF d]
  have \<open>extractedId d = Some ''alpha''\<close>
    by simp
  with d have a: \<open>file_id sample_parse sample_fs ''gamma.json'' = Some ''alpha''\<close>
    by (simp add: file_id_diags)
  from t [THEN conjunct1, rule_format, of start]
  have b: \<open>check_id ''gamma.json'' doc_gamma start
       = \<lparr>errs = [], warns = [''id "alpha" does not match filename stem "gamma"''],
          extractedId = Some ''alpha''\<rparr>\<close>
    unfolding h3 by (simp add: doc_gamma_def start_def)
  have g1: \<open>read_parse sample_parse sample_fs ''empty.json'' = Inr doc_empty_id\<close>
    by code_simp
  have g2: \<open>property doc_empty_id ''id'' = Some (JStr '''')\<close>
    by code_simp
  obtain d' where d': \<open>validateFile_diags sample_parse sample_fs ''empty.json'' = Inr d'\<close>
    by (cases \<open>validateFile_diags sample_parse sample_fs ''empty.json''\<close>)
       (simp_all add: validateFile_diags_throws g1 doc_empty_id_def category_prints_def
          VALID_CATEGORIES_def)
  have m': \<open>\<forall>s. map_of [(''id'', JStr ''''), (''name'', JStr ''Empty''),
     (''description'', JStr ''third''), (''category'', JStr ''workflow''),
     (''supplement'', JStr ''text''), (''examples'', JArr [])] ''id'' = Some (JStr s) \<longrightarrow> s = []\<close>
    by simp
  note t' = C4_id_check [OF g1 [unfolded doc_empty_id_def], THEN conjunct2, THEN mp, OF m']
  from t' [THEN conjunct1, rule_format, of start]
  have b': \<open>check_id ''empty.json'' doc_empty_id start
       = \<lparr>errs = [''Required field "id" is missing or not a non-empty string''],
          warns = [], extractedId = None\<rparr>\<close>
    by (simp add: doc_empty_id_def start_def)
  from t' [THEN conjunct2, rule_format, OF d'] d'
  have a': \<open>file_id sample_parse sample_fs ''empty.json'' = None\<close>
    by (simp add: file_id_diags)
  from h1 h2 h3 h4 h5 a b g1 g2 b' a' show ?thesis by blast
qed

text \<open>
  The claim as stated fails for an \<open>id\<close> that is present and is the empty string: its
  value is not assigned to the extracted identifier, which stays \<open>null\<close> (line 105).
\<close>

theorem C4_id_check_counterexample:
  \<open>read_parse sample_parse sample_fs ''empty.json'' = Inr doc_empty_id
   \<and> property doc_empty_id ''id'' = Some (JStr '''')
   \<and> snd (validateFile sample_parse sample_fs ''empty.json'')
       = Inr \<lparr>errors = 1, warnings = 0, id' = None\<rparr>\<close>
  by code_simp

subsection \<open>C5\<close>

text \<open>
  C5. For a file whose content parses to a conforming document (every recognized field
  present with its type, the identifier a non-empty string equal to the stem of the
  filename, the name non-empty, the category one of the four, every example a record
  with string \<open>scenario\<close> and \<open>commands\<close>, no other key, and a filename that follows the
  naming convention), \<open>validateFile\<close> records no error and no warning, prints \<open>ok\<close> and
  returns the identifier. A directory that holds at least one candidate file, all
  candidate files conforming, with pairwise distinct identifiers, gives exit status 0.
\<close>

theorem C5_conforming:
  \<open>(read_parse parse fs filename = Inr parsed \<and> conforming filename parsed \<longrightarrow>
       validateFile_diags parse fs filename =
         Inr \<lparr>errs = [], warns = [], extractedId = Some (str_of (property parsed ''id''))\<rparr>
       \<and> validateFile parse fs filename =
         ([Log (''\<newline>Validating strategies/'' @ filename), Log ''  ok''],
          Inr \<lparr>errors = 0, warnings = 0, id' = Some (str_of (property parsed ''id''))\<rparr>))
   \<and> (discover entries \<noteq> []
        \<and> (\<forall>f \<in> set (discover entries). conforming_file parse fs f)
        \<and> distinct (map (file_id parse fs) (discover entries))
       \<longrightarrow> snd (main parse fs (Inr entries)) = Exit 0)\<close>
proof (intro conjI impI)
  assume h: \<open>read_parse parse fs filename = Inr parsed \<and> conforming filename parsed\<close>
  then show d: \<open>validateFile_diags parse fs filename =
         Inr \<lparr>errs = [], warns = [], extractedId = Some (str_of (property parsed ''id''))\<rparr>\<close>
    by (intro conforming_diags) simp_all
  then show \<open>validateFile parse fs filename =
         ([Log (''\<newline>Validating strategies/'' @ filename), Log ''  ok''],
          Inr \<lparr>errors = 0, warnings = 0, id' = Some (str_of (property parsed ''id''))\<rparr>)\<close>
    by (simp add: validateFile_def printResults_def)
next
  assume h: \<open>discover entries \<noteq> []
        \<and> (\<forall>f \<in> set (discover entries). conforming_file parse fs f)
        \<and> distinct (map (file_id parse fs) (discover entries))\<close>
  let ?fl = \<open>discover entries\<close>
  have v: \<open>\<exists>i. validateFile_diags parse fs f = Inr \<lparr>errs = [], warns = [], extractedId = Some i\<rparr>\<close>
    if \<open>f \<in> set ?fl\<close> for f
  proof -
    from h that have \<open>conforming_file parse fs f\<close> by simp
    then obtain parsed where \<open>read_parse parse fs f = Inr parsed\<close> \<open>conforming f parsed\<close>
      by (auto simp: conforming_file_def split: sum.splits)
    from conforming_diags [OF this] show ?thesis by blast
  qed
  have c: \<open>\<forall>f \<in> set ?fl. completes parse fs f\<close>
  proof
    fix f assume \<open>f \<in> set ?fl\<close>
    from v [OF this] obtain i
      where \<open>validateFile_diags parse fs f = Inr \<lparr>errs = [], warns = [], extractedId = Some i\<rparr>\<close> ..
    then show \<open>completes parse fs f\<close>
      by (simp add: completes_def validateFile_def)
  qed
  have e: \<open>file_errors parse fs f = 0\<close> if \<open>f \<in> set ?fl\<close> for f
  proof -
    from v [OF that] obtain i
      where \<open>validateFile_diags parse fs f = Inr \<lparr>errs = [], warns = [], extractedId = Some i\<rparr>\<close> ..
    then show ?thesis
      by (simp add: file_errors_def validateFile_def)
  qed
  then have s: \<open>sum_list (map (file_errors parse fs) ?fl) = 0\<close>
    by simp
  have \<open>length (declaring parse fs ?fl i) \<le> 1\<close> for i
  proof -
    have \<open>length (filter (\<lambda>x. x = Some i) (map (file_id parse fs) ?fl)) \<le> 1\<close>
      using h by (intro distinct_length_filter [THEN eq_refl, THEN le_trans]) (simp_all add: card_le_Suc0_iff_eq)
    then show ?thesis
      by (simp add: declaring_def comp_def)
  qed
  then have \<open>duplicated parse fs ?fl = {}\<close>
    by (auto simp: duplicated_def not_less [symmetric])
  with s have \<open>total_errors parse fs ?fl = 0\<close>
    by (simp add: total_errors_def)
  with h show \<open>snd (main parse fs (Inr entries)) = Exit 0\<close>
    by (simp add: main_exit [OF c])
qed

theorem C5_conforming_witness:
  \<open>read_parse sample_parse sample_fs ''alpha.json'' = Inr doc_alpha
   \<and> conforming ''alpha.json'' doc_alpha
   \<and> validateFile sample_parse sample_fs ''alpha.json''
       = ([Log ''\<newline>Validating strategies/alpha.json'', Log ''  ok''],
          Inr \<lparr>errors = 0, warnings = 0, id' = Some ''alpha''\<rparr>)
   \<and> discover [''omega-2.json'', ''README.md'', ''alpha.json'']
       = [''alpha.json'', ''omega-2.json'']
   \<and> conforming_file sample_parse sample_fs ''alpha.json''
   \<and> conforming_file sample_parse sample_fs ''omega-2.json''
   \<and> map (file_id sample_parse sample_fs) [''alpha.json'', ''omega-2.json'']
       = [Some ''alpha'', Some ''omega-2'']
   \<and> snd (main sample_parse sample_fs (Inr [''omega-2.json'', ''README.md'', ''alpha.json'']))
       = Exit 0\<close>
proof -
  have h1: \<open>read_parse sample_parse sample_fs ''alpha.json'' = Inr doc_alpha\<close>
    by code_simp
  have h2: \<open>conforming ''alpha.json'' doc_alpha\<close>
    by code_simp
  have d: \<open>discover [''omega-2.json'', ''README.md'', ''alpha.json'']
       = [''alpha.json'', ''omega-2.json'']\<close>
    by code_simp
  have c: \<open>conforming_file sample_parse sample_fs ''alpha.json''\<close>
    \<open>conforming_file sample_parse sample_fs ''omega-2.json''\<close>
    by code_simp+
  have i: \<open>map (file_id sample_parse sample_fs) [''alpha.json'', ''omega-2.json'']
       = [Some ''alpha'', Some ''omega-2'']\<close>
    by code_simp
  note t = C5_conforming [of sample_parse sample_fs \<open>''alpha.json''\<close> doc_alpha
      \<open>[''omega-2.json'', ''README.md'', ''alpha.json'']\<close>]
  from t h1 h2
  have a: \<open>validateFile sample_parse sample_fs ''alpha.json''
       = ([Log ''\<newline>Validating strategies/alpha.json'', Log ''  ok''],
          Inr \<lparr>errors = 0, warnings = 0, id' = Some ''alpha''\<rparr>)\<close>
    by (simp add: doc_alpha_def)
  from t c
  have b: \<open>snd (main sample_parse sample_fs (Inr [''omega-2.json'', ''README.md'', ''alpha.json'']))
       = Exit 0\<close>
    unfolding d i by simp
  from h1 h2 a d c i b show ?thesis by blast
qed

subsection \<open>C6\<close>

text \<open>
  C6. The claim is that for every document with an \<open>examples\<close> field \<open>validateFile\<close> records
  an error when the field is not a sequence. It does not for the file \<open>crash.json\<close> of the
  sample directory, a keyed record whose \<open>examples\<close> is the number 5 and whose \<open>category\<close>
  is an object with an own property \<open>toString\<close>. The category is not one of the four, so
  line 135 builds its message; the template literal cannot convert the value and throws a
  \<open>TypeError\<close>; nothing catches it, and \<open>validateFile\<close> is left before line 139 is reached.
  No error about \<open>examples\<close> is recorded or printed, only the header of the file, and the
  run ends with the exception instead of an exit status. The check of lines 139-157 on
  its own, applied to the same document, records the error the claim asks for.
\<close>

theorem C6_examples_not_reached:
  \<open>read_parse sample_parse sample_fs ''crash.json'' = Inr doc_crash
   \<and> property doc_crash ''examples'' = Some (JNum ''5'')
   \<and> property doc_crash ''category'' = Some (JObj [(''toString'', JNull)])
   \<and> js_string (JObj [(''toString'', JNull)]) = None
   \<and> validateFile sample_parse sample_fs ''crash.json''
       = ([Log ''\<newline>Validating strategies/crash.json''], Inl TypeError)
   \<and> main sample_parse sample_fs (Inr [''crash.json'', ''alpha.json''])
       = ([Log ''\<newline>Validating strategies/alpha.json'', Log ''  ok'',
           Log ''\<newline>Validating strategies/crash.json''],
          Uncaught TypeError)
   \<and> errs (check_examples doc_crash start) = [''Field "examples" must be an array'']\<close>
  by code_simp

text \<open>
  Away from that exception the examples check is as the specification describes it. A
  document with an \<open>examples\<close> field is validated to the end whenever the message of the
  \<open>category\<close> check can be built, and whenever its validation returns, the errors
  recorded are those of the checks up to \<open>category\<close> followed by those of \<open>examples\<close>: one
  error when the field is not a sequence, and otherwise, element by element in order, what
  \<open>example_errors\<close> says of the element at its zero-based position, whatever the other
  elements are. In particular, when one element has a string \<open>scenario\<close> and no \<open>commands\<close>
  and the other elements are well formed, \<open>examples\<close> contributes exactly one error, tagged
  with the position of that element.
\<close>

lemma examples_errors_when_validation_returns:
  assumes \<open>read_parse parse fs filename = Inr parsed\<close>
    and \<open>property parsed ''examples'' = Some v\<close>
  shows \<open>(category_prints parsed \<longrightarrow> (\<exists>d. validateFile_diags parse fs filename = Inr d))
     \<and> (\<forall>d. validateFile_diags parse fs filename = Inr d \<longrightarrow>
          (\<exists>d0. checks_to_category filename parsed (check_filename filename start) = Inr d0
             \<and> errs d = errs d0 @
                 (case v of
                    JArr xs \<Rightarrow>
                      concat (map (\<lambda>(i, ex). example_errors i ex) (enumerate 0 xs))
                  | _ \<Rightarrow> [''Field "examples" must be an array''])
             \<and> (\<forall>pre e post s.
                   v = JArr (pre @ JObj e # post)
                   \<and> list_all example_ok pre \<and> list_all example_ok post
                   \<and> map_of e ''scenario'' = Some (JStr s) \<and> map_of e ''commands'' = None
                   \<longrightarrow> errs d = errs d0
                         @ [''examples['' @ show_nat (length pre)
                              @ '']: "commands" must be a string''])))\<close>
proof (intro conjI allI impI)
  from assms(2) obtain kvs where p: \<open>parsed = JObj kvs\<close>
    by (cases parsed) simp_all
  {
    assume \<open>category_prints parsed\<close>
    then show \<open>\<exists>d. validateFile_diags parse fs filename = Inr d\<close>
      using validateFile_diags_returns [OF assms(1) [unfolded p]] by (simp add: p)
  }
  fix d
  assume r: \<open>validateFile_diags parse fs filename = Inr d\<close>
  then obtain d0
    where d0: \<open>checks_to_category filename parsed (check_filename filename start) = Inr d0\<close>
      and d: \<open>d = check_unknown parsed (check_examples parsed d0)\<close>
    unfolding validateFile_diags_object [OF assms(1) [unfolded p]] p
    by (auto split: sum.splits)
  have e: \<open>errs d = errs d0 @
         (case v of
            JArr xs \<Rightarrow> concat (map (\<lambda>(i, ex). example_errors i ex) (enumerate 0 xs))
          | _ \<Rightarrow> [''Field "examples" must be an array''])\<close>
    using assms(2) by (cases v) (simp_all add: d errs_check_examples)
  have \<open>errs d = errs d0
          @ [''examples['' @ show_nat (length pre) @ '']: "commands" must be a string'']\<close>
    if \<open>v = JArr (pre @ JObj e # post)
           \<and> list_all example_ok pre \<and> list_all example_ok post
           \<and> map_of e ''scenario'' = Some (JStr s) \<and> map_of e ''commands'' = None\<close>
    for pre e post s
    using that
    by (simp add: e enumerate_middle examples_ok_no_errors example_errors_def)
  with d0 e
  show \<open>\<exists>d0. checks_to_category filename parsed (check_filename filename start) = Inr d0
             \<and> errs d = errs d0 @
                 (case v of
                    JArr xs \<Rightarrow>
                      concat (map (\<lambda>(i, ex). example_errors i ex) (enumerate 0 xs))
                  | _ \<Rightarrow> [''Field "examples" must be an array''])
             \<and> (\<forall>pre e post s.
                   v = JArr (pre @ JObj e # post)
                   \<and> list_all example_ok pre \<and> list_all example_ok post
                   \<and> map_of e ''scenario'' = Some (JStr s) \<and> map_of e ''commands'' = None
                   \<longrightarrow> errs d = errs d0
                         @ [''examples['' @ show_nat (length pre)
                              @ '']: "commands" must be a string''])\<close>
    by blast
qed

lemma examples_errors_when_validation_returns_example:
  \<open>read_parse sample_parse sample_fs ''delta.json'' = Inr doc_delta
   \<and> property doc_delta ''examples''
       = Some (JArr [JObj [(''scenario'', JStr ''s''), (''commands'', JStr ''c'')],
                     JObj [(''scenario'', JStr ''s'')], JNull])
   \<and> category_prints doc_delta
   \<and> validateFile_diags sample_parse sample_fs ''delta.json''
       = Inr \<lparr>errs = [''examples[1]: "commands" must be a string'',
                      ''examples[2]: must be an object with "scenario" and "commands" strings''],
              warns = [], extractedId = Some ''delta''\<rparr>
   \<and> checks_to_category ''delta.json'' doc_delta (check_filename ''delta.json'' start)
       = Inr \<lparr>errs = [], warns = [], extractedId = Some ''delta''\<rparr>
   \<and> concat (map (\<lambda>(i, ex). example_errors i ex)
        (enumerate 0 [JObj [(''scenario'', JStr ''s''), (''commands'', JStr ''c'')],
                      JObj [(''scenario'', JStr ''s'')], JNull]))
      = [''examples[1]: "commands" must be a string'',
         ''examples[2]: must be an object with "scenario" and "commands" strings'']
   \<and> read_parse sample_parse sample_fs ''epsilon.json'' = Inr doc_epsilon
   \<and> property doc_epsilon ''examples''
       = Some (JArr ([JObj [(''scenario'', JStr ''s''), (''commands'', JStr ''c'')]]
                     @ JObj [(''scenario'', JStr ''t'')]
                     # [JObj [(''scenario'', JStr ''u''), (''commands'', JStr ''d'')]]))
   \<and> category_prints doc_epsilon
   \<and> list_all example_ok [JObj [(''scenario'', JStr ''s''), (''commands'', JStr ''c'')]]
   \<and> list_all example_ok [JObj [(''scenario'', JStr ''u''), (''commands'', JStr ''d'')]]
   \<and> errs (projr (validateFile_diags sample_parse sample_fs ''epsilon.json''))
       = [''examples[1]: "commands" must be a string'']\<close>
proof -
  have h1: \<open>read_parse sample_parse sample_fs ''delta.json'' = Inr doc_delta\<close>
    by code_simp
  have h2: \<open>property doc_delta ''examples''
       = Some (JArr [JObj [(''scenario'', JStr ''s''), (''commands'', JStr ''c'')],
                     JObj [(''scenario'', JStr ''s'')], JNull])\<close>
    by code_simp
  have h3: \<open>validateFile_diags sample_parse sample_fs ''delta.json''
       = Inr \<lparr>errs = [''examples[1]: "commands" must be a string'',
                      ''examples[2]: must be an object with "scenario" and "commands" strings''],
              warns = [], extractedId = Some ''delta''\<rparr>\<close>
    by code_simp
  have h4: \<open>checks_to_category ''delta.json'' doc_delta (check_filename ''delta.json'' start)
       = Inr \<lparr>errs = [], warns = [], extractedId = Some ''delta''\<rparr>\<close>
    by code_simp
  have h5: \<open>category_prints doc_delta\<close>
    by code_simp
  from examples_errors_when_validation_returns [OF h1 h2, THEN conjunct2, rule_format, OF h3]
  have a: \<open>concat (map (\<lambda>(i, ex). example_errors i ex)
        (enumerate 0 [JObj [(''scenario'', JStr ''s''), (''commands'', JStr ''c'')],
                      JObj [(''scenario'', JStr ''s'')], JNull]))
      = [''examples[1]: "commands" must be a string'',
         ''examples[2]: must be an object with "scenario" and "commands" strings'']\<close>
    unfolding h4 by simp
  have g1: \<open>read_parse sample_parse sample_fs ''epsilon.json'' = Inr doc_epsilon\<close>
    by code_simp
  have g2: \<open>property doc_epsilon ''examples''
       = Some (JArr ([JObj [(''scenario'', JStr ''s''), (''commands'', JStr ''c'')]]
                     @ JObj [(''scenario'', JStr ''t'')]
                     # [JObj [(''scenario'', JStr ''u''), (''commands'', JStr ''d'')]]))\<close>
    by code_simp
  have g3: \<open>category_prints doc_epsilon\<close>
    by code_simp
  have g4: \<open>list_all example_ok [JObj [(''scenario'', JStr ''s''), (''commands'', JStr ''c'')]]\<close>
    \<open>list_all example_ok [JObj [(''scenario'', JStr ''u''), (''commands'', JStr ''d'')]]\<close>
    by code_simp+
  have g5: \<open>checks_to_category ''epsilon.json'' doc_epsilon (check_filename ''epsilon.json'' start)
       = Inr \<lparr>errs = [], warns = [], extractedId = Some ''epsilon''\<rparr>\<close>
    by code_simp
  note t = examples_errors_when_validation_returns [OF g1 g2]
  from t [THEN conjunct1] g3
  obtain d where d: \<open>validateFile_diags sample_parse sample_fs ''epsilon.json'' = Inr d\<close>
    by blast
  from t [THEN conjunct2, THEN spec, THEN mp, OF d] obtain d0
    where k: \<open>checks_to_category ''epsilon.json'' doc_epsilon
        (check_filename ''epsilon.json'' start) = Inr d0\<close>
      and imp: \<open>\<forall>pre e post s.
           JArr ([JObj [(''scenario'', JStr ''s''), (''commands'', JStr ''c'')]]
                 @ JObj [(''scenario'', JStr ''t'')]
                 # [JObj [(''scenario'', JStr ''u''), (''commands'', JStr ''d'')]])
             = JArr (pre @ JObj e # post)
           \<and> list_all example_ok pre \<and> list_all example_ok post
           \<and> map_of e ''scenario'' = Some (JStr s) \<and> map_of e ''commands'' = None
           \<longrightarrow> errs d = errs d0
                 @ [''examples['' @ show_nat (length pre) @ '']: "commands" must be a string'']\<close>
    by blast
  from k [unfolded g5] have d0: \<open>errs d0 = []\<close>
    by auto
  from imp [THEN spec, THEN spec, THEN spec, THEN spec, THEN mp,
      of \<open>[JObj [(''scenario'', JStr ''s''), (''commands'', JStr ''c'')]]\<close>
         \<open>[(''scenario'', JStr ''t'')]\<close>
         \<open>[JObj [(''scenario'', JStr ''u''), (''commands'', JStr ''d'')]]\<close> \<open>''t''\<close>] g4
  have \<open>errs d = [''examples[1]: "commands" must be a string'']\<close>
    by (simp add: d0 show_nat.simps digit_def)
  with d have b: \<open>errs (projr (validateFile_diags sample_parse sample_fs ''epsilon.json''))
       = [''examples[1]: "commands" must be a string'']\<close>
    by simp
  from h1 h2 h3 h4 h5 a g1 g2 g3 g4 b show ?thesis by blast
qed

subsection \<open>C7\<close>

text \<open>
  C7, as the program has it. For a document that parses to a keyed record without \<open>id\<close>:
  the check of \<open>id\<close> records exactly one error; the identifier returned is \<open>null\<close>; when the
  filename follows the naming convention and every other field check passes, that error
  is the only one of the file; and in every run whose loop completes, the filename is
  listed under no identifier of the identifier map.
\<close>

theorem C7_missing_id:
  assumes \<open>read_parse parse fs filename = Inr (JObj kvs)\<close>
    and \<open>map_of kvs ''id'' = None\<close>
  shows \<open>(\<forall>d0. check_id filename (JObj kvs) d0 =
          d0\<lparr>errs := errs d0
               @ [''Required field "id" is missing or not a non-empty string'']\<rparr>)
     \<and> file_id parse fs filename = None
     \<and> (FILENAME_RE_test filename \<and> other_checks_pass (JObj kvs) \<longrightarrow>
          (\<exists>d. validateFile_diags parse fs filename = Inr d
             \<and> errs d = [''Required field "id" is missing or not a non-empty string'']
             \<and> extractedId d = None))
     \<and> (\<forall>fl st i fns. snd (main_loop parse fs fl run0) = Inr st \<and> (i, fns) \<in> set (idMap st)
           \<longrightarrow> filename \<notin> set fns)\<close>
proof -
  have c: \<open>check_id filename (JObj kvs) d0 =
          d0\<lparr>errs := errs d0
               @ [''Required field "id" is missing or not a non-empty string'']\<rparr>\<close> for d0
    using assms(2) by (intro check_id_absent) simp
  have i: \<open>file_id parse fs filename = None\<close>
  proof (cases \<open>validateFile_diags parse fs filename\<close>)
    case (Inl e)
    then show ?thesis by (rule file_id_throws)
  next
    case (Inr d)
    then show ?thesis
      by (simp add: file_id_diags extractedId_object [OF assms(1) Inr] c start_def)
  qed
  have one: \<open>\<exists>d. validateFile_diags parse fs filename = Inr d
             \<and> errs d = [''Required field "id" is missing or not a non-empty string'']
             \<and> extractedId d = None\<close>
    if h: \<open>FILENAME_RE_test filename \<and> other_checks_pass (JObj kvs)\<close>
  proof -
    from h other_checks [of \<open>JObj kvs\<close> filename \<open>check_filename filename start\<close>]
    obtain d1
      where d1: \<open>checks_to_category filename (JObj kvs) (check_filename filename start) = Inr d1\<close>
        and e1: \<open>errs d1 = errs (check_id filename (JObj kvs) (check_filename filename start))\<close>
        and e2: \<open>errs (check_examples (JObj kvs) d1) = errs d1\<close>
      by blast
    let ?d = \<open>check_unknown (JObj kvs) (check_examples (JObj kvs) d1)\<close>
    have v: \<open>validateFile_diags parse fs filename = Inr ?d\<close>
      by (simp add: validateFile_diags_object [OF assms(1)] d1)
    moreover have \<open>errs ?d = [''Required field "id" is missing or not a non-empty string'']\<close>
      using h by (simp add: e2 e1 c errs_check_filename)
    moreover have \<open>extractedId ?d = None\<close>
      using i v by (simp add: file_id_diags)
    ultimately show ?thesis by blast
  qed
  have out: \<open>filename \<notin> set fns\<close>
    if h: \<open>snd (main_loop parse fs fl run0) = Inr st \<and> (i, fns) \<in> set (idMap st)\<close>
    for fl st i fns
  proof -
    from h have \<open>idMap st = foldl (add_file parse fs) [] fl\<close>
      by (intro loop_state(1)) simp
    with h build_entries [of i fns parse fs fl] have \<open>fns = declaring parse fs fl i\<close>
      by simp
    with i show ?thesis
      by (simp add: declaring_member)
  qed
  from c i one out show ?thesis by blast
qed

theorem C7_missing_id_witness:
  \<open>read_parse sample_parse sample_fs ''beta.json'' = Inr doc_noid
   \<and> property doc_noid ''id'' = None
   \<and> FILENAME_RE_test ''beta.json''
   \<and> other_checks_pass doc_noid
   \<and> file_errors sample_parse sample_fs ''beta.json'' = 1
   \<and> file_id sample_parse sample_fs ''beta.json'' = None
   \<and> snd (main_loop sample_parse sample_fs [''alpha.json'', ''beta.json''] run0)
       = Inr \<lparr>totalErrors = 1, totalWarnings = 0, passedFiles = 1,
              idMap = [(''alpha'', [''alpha.json''])]\<rparr>
   \<and> ''beta.json'' \<notin> set [''alpha.json'']\<close>
proof -
  have h1: \<open>read_parse sample_parse sample_fs ''beta.json'' = Inr doc_noid\<close>
    by code_simp
  have h2: \<open>property doc_noid ''id'' = None\<close>
    by code_simp
  have h3: \<open>FILENAME_RE_test ''beta.json''\<close>
    by code_simp
  have h4: \<open>other_checks_pass doc_noid\<close>
    by code_simp
  have h6: \<open>snd (main_loop sample_parse sample_fs [''alpha.json'', ''beta.json''] run0)
       = Inr \<lparr>totalErrors = 1, totalWarnings = 0, passedFiles = 1,
              idMap = [(''alpha'', [''alpha.json''])]\<rparr>\<close>
    by code_simp
  have m: \<open>map_of [(''name'', JStr ''Beta''), (''description'', JStr ''second''),
     (''category'', JStr ''pattern''), (''supplement'', JStr ''text''),
     (''examples'', JArr [])] ''id'' = None\<close>
    by simp
  note t = C7_missing_id [OF h1 [unfolded doc_noid_def] m, folded doc_noid_def]
  from t have a: \<open>file_id sample_parse sample_fs ''beta.json'' = None\<close>
    by blast
  from t h3 h4 obtain d where \<open>validateFile_diags sample_parse sample_fs ''beta.json'' = Inr d\<close>
    and \<open>errs d = [''Required field "id" is missing or not a non-empty string'']\<close>
    by blast
  then have b: \<open>file_errors sample_parse sample_fs ''beta.json'' = 1\<close>
    by (simp add: file_errors_def validateFile_def)
  from t have \<open>snd (main_loop sample_parse sample_fs [''alpha.json'', ''beta.json''] run0)
        = Inr \<lparr>totalErrors = 1, totalWarnings = 0, passedFiles = 1,
              idMap = [(''alpha'', [''alpha.json''])]\<rparr>
      \<and> (''alpha'', [''alpha.json''])
          \<in> set (idMap \<lparr>totalErrors = 1, totalWarnings = 0, passedFiles = 1,
              idMap = [(''alpha'', [''alpha.json''])]\<rparr>)
      \<longrightarrow> ''beta.json'' \<notin> set [''alpha.json'']\<close>
    by blast
  with h6 have c: \<open>''beta.json'' \<notin> set [''alpha.json'']\<close>
    by simp
  from h1 h2 h3 h4 b a h6 c show ?thesis by blast
qed

text \<open>
  The claim as stated, one error in total when every other field check passes, fails
  under a filename that breaks the naming convention: the file has two errors (lines
  82-84 and 105-106).
\<close>

theorem C7_missing_id_counterexample:
  \<open>read_parse sample_parse sample_fs ''Bad_Name.json'' = Inr doc_noid
   \<and> property doc_noid ''id'' = None
   \<and> other_checks_pass doc_noid
   \<and> snd (validateFile sample_parse sample_fs ''Bad_Name.json'')
       = Inr \<lparr>errors = 2, warnings = 0, id' = None\<rparr>\<close>
  by code_simp

subsection \<open>C8\<close>

text \<open>
  C8. When no entry of the directory listing ends with \<open>.json\<close>, the run prints one
  error on the error stream and exits with status 1. Nothing else is printed, so there
  is no per-file section, and the result depends neither on the parser nor on the
  content of any file: \<open>validateFile\<close> is not called.
\<close>

theorem C8_no_candidates:
  assumes \<open>filter (\<lambda>f. endsWith f ''.json'') entries = []\<close>
  shows \<open>main parse fs (Inr entries) = ([Err ''No .json files found in strategies/''], Exit 1)\<close>
  using assms by (simp add: main_def discover_def)

theorem C8_no_candidates_witness:
  \<open>filter (\<lambda>f. endsWith f ''.json'') [''README.md'', ''notes.txt'', ''json''] = []
   \<and> main sample_parse sample_fs (Inr [''README.md'', ''notes.txt'', ''json''])
       = ([Err ''No .json files found in strategies/''], Exit 1)\<close>
proof -
  have h: \<open>filter (\<lambda>f. endsWith f ''.json'') [''README.md'', ''notes.txt'', ''json''] = []\<close>
    by (simp add: endsWith_def)
  from C8_no_candidates [OF h] h show ?thesis by simp
qed

subsection \<open>C9\<close>




subsection \<open>C10\<close>

text \<open>
  C10. When reading a discovered file fails, the failure is reported as exactly one
  error of that file, \<open>Invalid JSON:\<close> followed by the message, added to what the filename
  check recorded (which is no report of the failure), with no warning and the identifier
  \<open>null\<close>: the counts and identifier
  that a parse failure gives, and with the same message the same printed lines. The loop of \<open>main\<close> then goes on with the remaining
  files, the errors of this file added to the total and nothing else changed, and a
  run that completes with such a file among those discovered exits with status 1.
\<close>

theorem C10_read_failure:
  assumes \<open>fs filename = Inl msg\<close>
  shows \<open>validateFile_diags parse fs filename =
       Inr \<lparr>errs = errs (check_filename filename start) @ [''Invalid JSON: '' @ msg],
            warns = [], extractedId = None\<rparr>
     \<and> filter (\<lambda>e. take 14 e = ''Invalid JSON: '')
          (errs (check_filename filename start) @ [''Invalid JSON: '' @ msg])
         = [''Invalid JSON: '' @ msg]
     \<and> (\<forall>fs' content msg'. fs' filename = Inr content \<and> parse content = Inl msg'
          \<longrightarrow> snd (validateFile parse fs' filename) = snd (validateFile parse fs filename)
              \<and> (msg' = msg
                   \<longrightarrow> validateFile parse fs' filename = validateFile parse fs filename))
     \<and> main_loop parse fs (filename # rest) st =
         (case main_loop parse fs rest
                 (st\<lparr>totalErrors :=
                       totalErrors st + (length (errs (check_filename filename start)) + 1)\<rparr>) of
            (out, res) \<Rightarrow> (fst (validateFile parse fs filename) @ out, res))
     \<and> (\<forall>entries. filename \<in> set (discover entries)
            \<and> (\<forall>f \<in> set (discover entries). completes parse fs f)
          \<longrightarrow> snd (main parse fs (Inr entries)) = Exit 1)\<close>
proof (intro conjI allI impI)
  from assms have r: \<open>read_parse parse fs filename = Inl msg\<close>
    by (simp add: read_parse_def)
  show \<open>validateFile_diags parse fs filename =
       Inr \<lparr>errs = errs (check_filename filename start) @ [''Invalid JSON: '' @ msg],
            warns = [], extractedId = None\<rparr>\<close>
    by (rule validateFile_diags_Inl [OF r])
  show \<open>filter (\<lambda>e. take 14 e = ''Invalid JSON: '')
          (errs (check_filename filename start) @ [''Invalid JSON: '' @ msg])
         = [''Invalid JSON: '' @ msg]\<close>
    by (rule invalid_json_reported_once)
  show \<open>main_loop parse fs (filename # rest) st =
         (case main_loop parse fs rest
                 (st\<lparr>totalErrors :=
                       totalErrors st + (length (errs (check_filename filename start)) + 1)\<rparr>) of
            (out, res) \<Rightarrow> (fst (validateFile parse fs filename) @ out, res))\<close>
    by (simp add: validateFile_Inl [OF r] split: prod.splits)
  {
    fix fs' :: files and content msg'
    assume \<open>fs' filename = Inr content \<and> parse content = Inl msg'\<close>
    then have r': \<open>read_parse parse fs' filename = Inl msg'\<close>
      by (simp add: read_parse_def)
    show \<open>snd (validateFile parse fs' filename) = snd (validateFile parse fs filename)\<close>
      by (simp add: validateFile_Inl [OF r] validateFile_Inl [OF r'])
    show \<open>validateFile parse fs' filename = validateFile parse fs filename\<close> if \<open>msg' = msg\<close>
      using that by (simp add: validateFile_Inl [OF r] validateFile_Inl [OF r'])
  }
  {
    fix entries
    assume h: \<open>filename \<in> set (discover entries)
            \<and> (\<forall>f \<in> set (discover entries). completes parse fs f)\<close>
    have \<open>0 < file_errors parse fs filename\<close>
      by (simp add: file_errors_def validateFile_Inl [OF r])
    with h have \<open>0 < sum_list (map (file_errors parse fs) (discover entries))\<close>
      by (intro sum_list_pos_member [of filename]) simp_all
    then have \<open>0 < total_errors parse fs (discover entries)\<close>
      by (simp add: total_errors_def)
    with h show \<open>snd (main parse fs (Inr entries)) = Exit 1\<close>
      by (simp add: main_exit)
  }
qed

theorem C10_read_failure_witness:
  \<open>sample_fs ''gone.json'' = Inl ''ENOENT: no such file or directory''
   \<and> snd (main_loop sample_parse sample_fs [''gone.json'', ''alpha.json''] run0)
       = snd (main_loop sample_parse sample_fs [''alpha.json''] (run0\<lparr>totalErrors := 1\<rparr>))
   \<and> discover [''gone.json'', ''alpha.json''] = [''alpha.json'', ''gone.json'']
   \<and> completes sample_parse sample_fs ''alpha.json''
   \<and> completes sample_parse sample_fs ''gone.json''
   \<and> snd (main sample_parse sample_fs (Inr [''gone.json'', ''alpha.json''])) = Exit 1
   \<and> sample_parse ''{'' = Inl ''Unexpected end of JSON input''
   \<and> snd (validateFile sample_parse (\<lambda>f. Inr ''{'') ''gone.json'')
       = snd (validateFile sample_parse sample_fs ''gone.json'')
   \<and> snd (validateFile sample_parse sample_fs ''gone.json'')
       = Inr \<lparr>errors = 1, warnings = 0, id' = None\<rparr>\<close>
proof -
  have h: \<open>sample_fs ''gone.json'' = Inl ''ENOENT: no such file or directory''\<close>
    by code_simp
  have f: \<open>FILENAME_RE_test ''gone.json''\<close>
    by code_simp
  have d: \<open>discover [''gone.json'', ''alpha.json''] = [''alpha.json'', ''gone.json'']\<close>
    by code_simp
  have c: \<open>completes sample_parse sample_fs ''alpha.json''\<close>
    \<open>completes sample_parse sample_fs ''gone.json''\<close>
    by code_simp+
  have p: \<open>sample_parse ''{'' = Inl ''Unexpected end of JSON input''\<close>
    by code_simp
  note t = C10_read_failure [where fs = sample_fs and filename = \<open>''gone.json''\<close>
      and msg = \<open>''ENOENT: no such file or directory''\<close> and parse = sample_parse, OF h]
  from t [of \<open>[''alpha.json'']\<close> run0] f
  have a: \<open>snd (main_loop sample_parse sample_fs [''gone.json'', ''alpha.json''] run0)
       = snd (main_loop sample_parse sample_fs [''alpha.json''] (run0\<lparr>totalErrors := 1\<rparr>))\<close>
    by (simp add: errs_check_filename run0_def split: prod.splits)
  from t [of \<open>[]\<close> run0] d c
  have b: \<open>snd (main sample_parse sample_fs (Inr [''gone.json'', ''alpha.json''])) = Exit 1\<close>
    by simp
  from t [of \<open>[]\<close> run0, THEN conjunct2, THEN conjunct2, THEN conjunct1, THEN spec,
      THEN spec, THEN spec, THEN mp, THEN conjunct1, of \<open>\<lambda>f. Inr ''{''\<close> \<open>''{''\<close> \<open>''Unexpected end of JSON input''\<close>] p
  have e: \<open>snd (validateFile sample_parse (\<lambda>f. Inr ''{'') ''gone.json'')
       = snd (validateFile sample_parse sample_fs ''gone.json'')\<close>
    by simp
  from t [of \<open>[]\<close> run0, THEN conjunct1] f
  have g: \<open>snd (validateFile sample_parse sample_fs ''gone.json'')
       = Inr \<lparr>errors = 1, warnings = 0, id' = None\<rparr>\<close>
    by (simp add: validateFile_def errs_check_filename)
  from h a d c b p e g show ?thesis by blast
qed

end
